theory Spec2Isabelle
  imports Main "HOL-Library.Word"
begin

section \<open>Characters and memory\<close>

text \<open>
  The source buffer is the list of bytes that the C program holds in memory.  A read
  inside the list returns the stored byte; every other read returns NUL.  For the index
  just behind the last byte this is the terminator written by
  \<^verbatim>\<open>LoadEntireFileAndNullTerminate\<close>; for any other index outside the list the C program
  would read memory that does not belong to the buffer, and the model fixes the value NUL
  for it.  Pointers into the buffer are integer offsets from its first byte.
\<close>

abbreviation NUL :: char where
  "NUL \<equiv> CHR 0x00"

definition buf_at :: "char list \<Rightarrow> int \<Rightarrow> char" where
  "buf_at buf i = (if 0 \<le> i \<and> i < int (length buf) then buf ! nat i else NUL)"

text \<open>
  A C string is a memory region together with an offset into it; a string literal is the
  region holding its characters, at offset 0.
\<close>

type_synonym cstr = "char list \<times> int"

definition cstr_at :: "cstr \<Rightarrow> int \<Rightarrow> char" where
  "cstr_at p i = buf_at (fst p) (snd p + i)"

text \<open>
  The character predicates of the source take an \<^verbatim>\<open>int\<close>.  A \<^verbatim>\<open>char\<close> passed to them
  is promoted; \<open>char_int\<close> is the promotion of a signed 8-bit \<^verbatim>\<open>char\<close> (bytes from 128 on
  are negative).
\<close>

definition char_int :: "char \<Rightarrow> int" where
  "char_int c = (if (of_char c :: int) < 128 then of_char c else of_char c - 256)"

definition CharIsDigit :: "int \<Rightarrow> bool" where
  "CharIsDigit c = (c \<ge> char_int (CHR ''0'') \<and> c \<le> char_int (CHR ''9''))"

definition CharIsSpace :: "int \<Rightarrow> bool" where
  "CharIsSpace c = (c \<le> 32)"

text \<open>
  \<^verbatim>\<open>static char symbols[6] = {'=','{','}','*','|','`'}\<close>.  The loop of
  \<^verbatim>\<open>CharIsSymbol\<close> runs up to \<^verbatim>\<open>strlen(symbols)\<close> although the array holds no
  terminator; the model takes the six declared entries.
\<close>

definition symbols :: "char list" where
  "symbols = [CHR ''='', CHR ''{'', CHR ''}'', CHR ''*'', CHR ''|'', CHR 0x60]"

definition CharIsSymbol :: "int \<Rightarrow> bool" where
  "CharIsSymbol c = list_ex (\<lambda>s. char_int s = c) symbols"

function CalculateCStringLength_loop :: "cstr \<Rightarrow> int \<Rightarrow> int" where
  "CalculateCStringLength_loop p n =
     (if cstr_at p n \<noteq> NUL then CalculateCStringLength_loop p (n + 1) else n)"
  by pat_completeness auto
termination
  by (relation "measure (\<lambda>(p, n). nat (int (length (fst p)) - (snd p + n)))")
     (auto simp: cstr_at_def buf_at_def split: if_splits)

declare CalculateCStringLength_loop.simps [simp del]

definition CalculateCStringLength :: "cstr \<Rightarrow> int" where
  "CalculateCStringLength p = CalculateCStringLength_loop p 0"

function CStringMatch_loop :: "cstr \<Rightarrow> cstr \<Rightarrow> int \<Rightarrow> int \<Rightarrow> bool" where
  "CStringMatch_loop a b n i =
     (if i < n
      then (if cstr_at a i \<noteq> cstr_at b i then False else CStringMatch_loop a b n (i + 1))
      else True)"
  by pat_completeness auto
termination
  by (relation "measure (\<lambda>(a, b, n, i). nat (n - i))") auto

declare CStringMatch_loop.simps [simp del]

text \<open>
  \<^verbatim>\<open>CStringMatchCaseSensitiveN\<close>: both pointers are non-null at every call of the
  program, so the test \<^verbatim>\<open>a && b && n\<close> is the test of \<open>n\<close>.
\<close>

definition CStringMatchCaseSensitiveN :: "cstr \<Rightarrow> cstr \<Rightarrow> int \<Rightarrow> bool" where
  "CStringMatchCaseSensitiveN a b n = (if n \<noteq> 0 then CStringMatch_loop a b n 0 else False)"

section \<open>Tokens\<close>

datatype TokenType =
    Token_None
  | Token_Var
  | Token_Const
  | Token_Func
  | Token_Int
  | Token_Float
  | Token_DoubleNewline
  | Token_Symbol
  | Token_StringConstant

text \<open>
  \<^verbatim>\<open>struct Token\<close>.  The field \<open>string\<close> is the offset of the token's first character in
  the buffer; the null pointer of a zero-initialised token is written as offset 0 and is
  never read, since every reader tests the token's type first.  The field \<open>tokens\<close> is
  the link to the next token of a chain.
\<close>

datatype Token =
  Token (type: TokenType) (tokens: "Token option") (string: int) (string_length: int)
        (lines_traversed: int)

definition Token_zero :: Token where
  "Token_zero = Token Token_None None 0 0 0"

record Tokenizer =
  at :: int
  line :: int
  source_file :: string
  break_text_by_commas :: int

section \<open>The lexer\<close>

text \<open>
  The three escape-aware scans of \<^verbatim>\<open>GetNextTokenFromBuffer\<close> (var tag, const tag, string
  constant) are the same loop up to the delimiter test, which is the parameter \<open>delim\<close>.
  \<open>s\<close> is \<^verbatim>\<open>token.string\<close>, \<open>n\<close> is \<^verbatim>\<open>token.string_length\<close>.
\<close>

function escaped_scan :: "(char \<Rightarrow> bool) \<Rightarrow> char list \<Rightarrow> int \<Rightarrow> int \<Rightarrow> bool \<Rightarrow> int" where
  "escaped_scan delim buf s n escaped =
     (if (if escaped then True else \<not> delim (buf_at buf (s + n))) \<and> buf_at buf (s + n) \<noteq> NUL
      then escaped_scan delim buf s (n + 1)
             (if escaped then False else buf_at buf (s + n) = CHR 0x5C)
      else n)"
  by pat_completeness auto
termination
  by (relation "measure (\<lambda>(delim, buf, s, n, escaped). nat (int (length buf) - (s + n)))")
     (auto simp: buf_at_def split: if_splits)

declare escaped_scan.simps [simp del]

definition var_delim :: "char \<Rightarrow> bool" where
  "var_delim c = (c = CHR ''='' \<or> c = CHR '':'')"

definition const_delim :: "char \<Rightarrow> bool" where
  "const_delim c = (c = CHR '';'')"

definition string_delim :: "char \<Rightarrow> bool" where
  "string_delim c = (c = CHR 0x22)"

text \<open>
  The scan of an Int token: \<open>strlen\<close> and \<open>len\<close> are the two counters of the source
  (\<open>len\<close> is \<^verbatim>\<open>token.string_length\<close>); the result is \<open>len\<close>.
\<close>

function int_scan :: "char list \<Rightarrow> int \<Rightarrow> int \<Rightarrow> int \<Rightarrow> int" where
  "int_scan buf s strlen len =
     (if buf_at buf (s + strlen) \<noteq> CHR '';'' \<and> buf_at buf (s + strlen) \<noteq> NUL
      then (if CharIsDigit (char_int (buf_at buf (s + strlen)))
               \<or> CharIsSpace (char_int (buf_at buf (s + strlen)))
            then int_scan buf s (strlen + 1) (len + 1)
            else len)
      else len)"
  by pat_completeness auto
termination
  by (relation "measure (\<lambda>(buf, s, strlen, len). nat (int (length buf) - (s + strlen)))")
     (auto simp: buf_at_def split: if_splits)

declare int_scan.simps [simp del]

text \<open>\<^verbatim>\<open>for(j=i+1; buffer[j] && CharIsSymbol(buffer[j]); ++j);\<close>\<close>

function symbol_run :: "char list \<Rightarrow> int \<Rightarrow> int \<Rightarrow> int" where
  "symbol_run buf buffer j =
     (if buf_at buf (buffer + j) \<noteq> NUL \<and> CharIsSymbol (char_int (buf_at buf (buffer + j)))
      then symbol_run buf buffer (j + 1)
      else j)"
  by pat_completeness auto
termination
  by (relation "measure (\<lambda>(buf, buffer, j). nat (int (length buf) - (buffer + j)))")
     (auto simp: buf_at_def split: if_splits)

declare symbol_run.simps [simp del]

definition symbolic_blocks_to_break_out :: "string list" where
  "symbolic_blocks_to_break_out =
     [''='', ''*'', ''_'', [CHR 0x60], ''{'', ''}'', ''|'', '';'']"

text \<open>
  The loop over the break-out literals: the first literal that matches at \<open>buffer + i\<close>
  sets \<open>j\<close> and leaves the loop; with no match \<open>j\<close> keeps the end of the symbol run.
\<close>

fun break_out :: "string list \<Rightarrow> char list \<Rightarrow> int \<Rightarrow> int \<Rightarrow> int \<Rightarrow> int" where
  "break_out [] buf buffer i j = j"
| "break_out (lit # rest) buf buffer i j =
     (if CStringMatchCaseSensitiveN (lit, 0) (buf, buffer + i) (CalculateCStringLength (lit, 0))
      then i + CalculateCStringLength (lit, 0)
      else break_out rest buf buffer i j)"

text \<open>
  The main loop of \<^verbatim>\<open>GetNextTokenFromBuffer\<close>.  \<open>buffer\<close> is \<^verbatim>\<open>tokenizer->at\<close>, \<open>i\<close> the
  loop index and \<open>token\<close> the local token, which the symbol branch may have typed before
  the loop goes on.
\<close>

function GetNextToken_scan :: "char list \<Rightarrow> int \<Rightarrow> int \<Rightarrow> Token \<Rightarrow> Token" where
  "GetNextToken_scan buf buffer i token =
     (if buf_at buf (buffer + i) = NUL then token
      else if buf_at buf (buffer + i) = CHR 0x0A \<and> buf_at buf (buffer + i + 1) = CHR 0x0A
      then Token Token_DoubleNewline (tokens token) (buffer + i) 2 (lines_traversed token)
      else if buf_at buf (buffer + i) = CHR ''v'' \<and> buf_at buf (buffer + i + 1) = CHR ''a''
              \<and> buf_at buf (buffer + i + 2) = CHR ''r''
      then Token Token_Var (tokens token) (buffer + i)
             (escaped_scan var_delim buf (buffer + i) 0 True) (lines_traversed token)
      else if buf_at buf (buffer + i) = CHR ''c'' \<and> buf_at buf (buffer + i + 1) = CHR ''o''
              \<and> buf_at buf (buffer + i + 2) = CHR ''n'' \<and> buf_at buf (buffer + i + 3) = CHR ''s''
              \<and> buf_at buf (buffer + i + 4) = CHR ''t''
      then Token Token_Const (tokens token) (buffer + i)
             (escaped_scan const_delim buf (buffer + i) 0 True) (lines_traversed token)
      else if buf_at buf (buffer + i) = CHR 0x22
      then Token Token_StringConstant (tokens token) (buffer + i)
             (escaped_scan string_delim buf (buffer + i) 0 True + 1) (lines_traversed token)
      else if CharIsDigit (char_int (buf_at buf (buffer + i)))
      then Token Token_Int (tokens token) (buffer + i)
             (int_scan buf (buffer + i) 0 0) (lines_traversed token)
      else if \<not> CharIsSpace (char_int (buf_at buf (buffer + i)))
      then (if CharIsSymbol (char_int (buf_at buf (buffer + i)))
            then (if break_out symbolic_blocks_to_break_out buf buffer i
                       (symbol_run buf buffer (i + 1)) \<noteq> 0
                  then Token Token_Symbol (tokens token) (buffer + i)
                         (break_out symbolic_blocks_to_break_out buf buffer i
                            (symbol_run buf buffer (i + 1)) - i)
                         (lines_traversed token)
                  else GetNextToken_scan buf buffer (i + 1)
                         (Token Token_Symbol (tokens token) (string token)
                            (string_length token) (lines_traversed token)))
            else GetNextToken_scan buf buffer (i + 1) token)
      else GetNextToken_scan buf buffer (i + 1) token)"
  by pat_completeness auto
termination
  by (relation "measure (\<lambda>(buf, buffer, i, token). nat (int (length buf) - (buffer + i)))")
     (auto simp: buf_at_def split: if_splits)

declare GetNextToken_scan.simps [simp del]

text \<open>The final loop of the lexer, counting the newlines inside the token's span.\<close>

function count_lines :: "char list \<Rightarrow> int \<Rightarrow> int \<Rightarrow> int \<Rightarrow> int \<Rightarrow> int" where
  "count_lines buf s len i n =
     (if i < len
      then count_lines buf s len (i + 1) (if buf_at buf (s + i) = CHR 0x0A then n + 1 else n)
      else n)"
  by pat_completeness auto
termination
  by (relation "measure (\<lambda>(buf, s, len, i, n). nat (len - i))") auto

declare count_lines.simps [simp del]

definition with_lines :: "char list \<Rightarrow> Token \<Rightarrow> Token" where
  "with_lines buf token =
     Token (type token) (tokens token) (string token) (string_length token)
       (count_lines buf (string token) (string_length token) 0 (lines_traversed token))"

definition GetNextTokenFromBuffer :: "char list \<Rightarrow> Tokenizer \<Rightarrow> Token" where
  "GetNextTokenFromBuffer buf tokenizer =
     with_lines buf (GetNextToken_scan buf (at tokenizer) 0 Token_zero)"

definition PeekToken :: "char list \<Rightarrow> Tokenizer \<Rightarrow> Token" where
  "PeekToken buf tokenizer = GetNextTokenFromBuffer buf tokenizer"

section \<open>The parse context: arena and error collector\<close>

text \<open>
  The arena is the chain of blocks from \<^verbatim>\<open>context->head\<close> to \<^verbatim>\<open>context->active\<close>; a new
  block is linked behind the active one and becomes active, so the active block is the last
  of the chain.  A block is its capacity and its bump position.  \<^verbatim>\<open>malloc\<close> is taken to
  succeed.  The objects placed in the arena (tokens, nodes, messages, the error log) are
  kept as values of the model, so the address an allocation returns is not represented.
\<close>

record ParseContextMemoryBlock =
  block_size :: int
  alloc_position :: int

record ParseError =
  error_file :: string
  error_line :: int
  message :: string

text \<open>
  \<open>error_stack\<close> is \<open>None\<close> for the null pointer and otherwise the array of
  \<^verbatim>\<open>error_stack_size_max\<close> slots, a slot being \<open>None\<close> until an error is stored in it.
\<close>

record ParseContext =
  blocks :: "ParseContextMemoryBlock list"
  error_stack_size :: int
  error_stack_size_max :: int
  error_stack :: "ParseError option list option"

definition PARSE_CONTEXT_MEMORY_BLOCK_SIZE_DEFAULT :: int where
  "PARSE_CONTEXT_MEMORY_BLOCK_SIZE_DEFAULT = 4096"

text \<open>The sizes of the structs that the parser allocates, for an LP64 target.\<close>

definition sizeof_Token :: int where
  "sizeof_Token = 32"

definition sizeof_ExprNode :: int where
  "sizeof_ExprNode = 48"

definition sizeof_ParseError :: int where
  "sizeof_ParseError = 24"

definition ParseContextAllocateMemory :: "ParseContext \<Rightarrow> int \<Rightarrow> ParseContext" where
  "ParseContextAllocateMemory ctx sz =
     (let chain =
        (if blocks ctx = []
            \<or> alloc_position (last (blocks ctx)) + sz > block_size (last (blocks ctx))
         then blocks ctx @
                [\<lparr>block_size = (if sz < PARSE_CONTEXT_MEMORY_BLOCK_SIZE_DEFAULT
                                 then PARSE_CONTEXT_MEMORY_BLOCK_SIZE_DEFAULT else sz),
                  alloc_position = 0\<rparr>]
         else blocks ctx)
      in ctx\<lparr>blocks :=
               butlast chain @ [(last chain)\<lparr>alloc_position := alloc_position (last chain) + sz\<rparr>]\<rparr>)"

text \<open>
  \<^verbatim>\<open>PushParseError\<close>.  \<open>msg\<close> is the text that \<^verbatim>\<open>vsnprintf\<close> renders from the format and
  its arguments; \<^verbatim>\<open>needed_bytes\<close> is its length plus one.
\<close>

definition PushParseError :: "ParseContext \<Rightarrow> Tokenizer \<Rightarrow> string \<Rightarrow> ParseContext" where
  "PushParseError ctx tokenizer msg =
     (let ctx1 =
        (if error_stack ctx = None
         then (ParseContextAllocateMemory
                 (ctx\<lparr>error_stack_size := 0, error_stack_size_max := 32\<rparr>)
                 (sizeof_ParseError * 32))
              \<lparr>error_stack := Some (replicate 32 None)\<rparr>
         else ctx)
      in if error_stack_size ctx1 < error_stack_size_max ctx1
         then (let ctx2 = ParseContextAllocateMemory ctx1 (int (length msg) + 1)
               in ctx2\<lparr>error_stack :=
                         map_option
                           (\<lambda>a. a[nat (error_stack_size ctx2) :=
                                    Some \<lparr>error_file = source_file tokenizer,
                                          error_line = line tokenizer,
                                          message = msg\<rparr>])
                           (error_stack ctx2),
                       error_stack_size := error_stack_size ctx2 + 1\<rparr>)
         else ctx1)"

section \<open>Token requests\<close>

text \<open>
  The \<^verbatim>\<open>Require\<close> functions return the match flag, the token behind \<^verbatim>\<open>token_ptr\<close> (written
  only on a match) and the tokenizer (advanced only on a match).
\<close>

definition RequireTokenType ::
  "char list \<Rightarrow> Tokenizer \<Rightarrow> TokenType \<Rightarrow> Token \<Rightarrow> bool \<times> Token \<times> Tokenizer" where
  "RequireTokenType buf tokenizer ty token_ptr =
     (let token = GetNextTokenFromBuffer buf tokenizer
      in if type token = ty
         then (True, token,
               tokenizer\<lparr>at := string token + string_length token,
                         line := line tokenizer + lines_traversed token\<rparr>)
         else (False, token_ptr, tokenizer))"

definition TokenMatch :: "char list \<Rightarrow> Token \<Rightarrow> string \<Rightarrow> bool" where
  "TokenMatch buf token str =
     (type token \<noteq> Token_None
      \<and> CStringMatchCaseSensitiveN (buf, string token) (str, 0) (string_length token)
      \<and> cstr_at (str, 0) (string_length token) = NUL)"

definition RequireToken ::
  "char list \<Rightarrow> Tokenizer \<Rightarrow> string \<Rightarrow> Token \<Rightarrow> bool \<times> Token \<times> Tokenizer" where
  "RequireToken buf tokenizer str token_ptr =
     (let token = GetNextTokenFromBuffer buf tokenizer
      in if TokenMatch buf token str
         then (True, token,
               tokenizer\<lparr>at := string token + string_length token,
                         line := line tokenizer + lines_traversed token\<rparr>)
         else (False, token_ptr, tokenizer))"

definition setTokenFromOther :: "Token \<Rightarrow> Token \<Rightarrow> Token" where
  "setTokenFromOther to from =
     Token (type from) (tokens to) (string from) (string_length from) (lines_traversed from)"

section \<open>Value extraction\<close>

text \<open>The diagnostics of the parser, as rendered messages.\<close>

definition msg_expected_quote :: string where
  "msg_expected_quote = ''Expected '' @ [CHR 0x22] @ '' to follow String assignation.''"

definition msg_invalid_int :: "char \<Rightarrow> string" where
  "msg_invalid_int c = ''Expected Int value but had incorrect char '' @ [c] @ ''.''"

definition msg_expected_value :: string where
  "msg_expected_value = ''Expected value before endline''"

definition msg_malformed_tag :: string where
  "msg_malformed_tag = ''Malformed tag.''"

text \<open>The conversion \<^verbatim>\<open>%.*s\<close>: at most \<open>n\<close> characters from offset \<open>s\<close>, up to a NUL.\<close>

function format_precision_s :: "char list \<Rightarrow> int \<Rightarrow> int \<Rightarrow> string" where
  "format_precision_s buf s n =
     (if 0 < n \<and> buf_at buf s \<noteq> NUL
      then buf_at buf s # format_precision_s buf (s + 1) (n - 1)
      else [])"
  by pat_completeness auto
termination
  by (relation "measure (\<lambda>(buf, s, n). nat n)") auto

declare format_precision_s.simps [simp del]

definition msg_unexpected_symbol :: "char list \<Rightarrow> Token \<Rightarrow> string" where
  "msg_unexpected_symbol buf symbol =
     ''Unexpected symbol '' @ [CHR 0x27]
       @ format_precision_s buf (string symbol) (string_length symbol) @ [CHR 0x27]"

text \<open>
  The local variables of \<^verbatim>\<open>GetValue\<close> together with the objects it changes through its
  pointer arguments.
\<close>

record GetValue_frame =
  gv_i :: int
  gv_link_length :: int
  gv_isSet :: bool
  gv_bracket_stack :: int
  gv_context :: ParseContext
  gv_tokenizer :: Tokenizer
  gv_value :: Token

text \<open>The branch for \<^verbatim>\<open>link[i] == '"'\<close>, which ends the loop.\<close>

definition GetValue_string :: "char list \<Rightarrow> GetValue_frame \<Rightarrow> GetValue_frame" where
  "GetValue_string buf f =
     (case RequireTokenType buf (gv_tokenizer f) Token_StringConstant (gv_value f) of
        (matched, v, tk) \<Rightarrow>
          if matched
          then f\<lparr>gv_value := v, gv_tokenizer := tk,
                 gv_i := gv_i f + string_length v, gv_isSet := True\<rparr>
          else f\<lparr>gv_context := PushParseError (gv_context f) (gv_tokenizer f) msg_expected_quote\<rparr>)"

text \<open>The branch for a digit at \<^verbatim>\<open>link[i]\<close> whose Int token was taken.\<close>

definition GetValue_int :: "char list \<Rightarrow> GetValue_frame \<Rightarrow> Token \<Rightarrow> Tokenizer \<Rightarrow> GetValue_frame" where
  "GetValue_int buf f v tk =
     (if CharIsDigit (char_int (buf_at buf (string v + (string_length v - 1))))
      then f\<lparr>gv_value := v, gv_tokenizer := tk, gv_isSet := True,
             gv_i := gv_i f + string_length v\<rparr>
      else f\<lparr>gv_value := v, gv_tokenizer := tk,
             gv_context := PushParseError (gv_context f) tk
                             (msg_invalid_int (buf_at buf (string v + (string_length v - 1)))),
             gv_i := gv_i f + string_length v\<rparr>)"

text \<open>The rest of the \<^verbatim>\<open>else if\<close> chain: brackets and digits.\<close>

definition GetValue_other :: "char list \<Rightarrow> int \<Rightarrow> GetValue_frame \<Rightarrow> GetValue_frame" where
  "GetValue_other buf link f =
     (if buf_at buf (link + gv_i f) = CHR ''[''
      then f\<lparr>gv_bracket_stack := gv_bracket_stack f + 1\<rparr>
      else if buf_at buf (link + gv_i f) = CHR '']''
      then f\<lparr>gv_bracket_stack := gv_bracket_stack f - 1\<rparr>
      else if CharIsDigit (char_int (buf_at buf (link + gv_i f)))
      then (case RequireTokenType buf (gv_tokenizer f) Token_Int (gv_value f) of
              (matched, v, tk) \<Rightarrow> if matched then GetValue_int buf f v tk else f)
      else f)"

function GetValue_loop :: "char list \<Rightarrow> int \<Rightarrow> GetValue_frame \<Rightarrow> GetValue_frame" where
  "GetValue_loop buf link f =
     (if buf_at buf (link + gv_i f) = NUL then f
      else if buf_at buf (link + gv_i f) = CHR 0x22 then GetValue_string buf f
      else if buf_at buf (link + gv_i (GetValue_other buf link f)) = CHR '';''
      then (GetValue_other buf link f)
             \<lparr>gv_link_length := gv_link_length (GetValue_other buf link f) + 1\<rparr>
      else GetValue_loop buf link
             ((GetValue_other buf link f)
                \<lparr>gv_link_length := gv_link_length (GetValue_other buf link f) + 1,
                  gv_i := gv_i (GetValue_other buf link f) + 1\<rparr>))"
  by pat_completeness auto

text \<open>
  The conversion of the \<^verbatim>\<open>int\<close> result to the return type \<^verbatim>\<open>i8\<close>: the low eight bits,
  read as a signed value.
\<close>

definition i8_of_int :: "int \<Rightarrow> int" where
  "i8_of_int x = sint (word_of_int x :: 8 word)"

definition GetValue ::
  "char list \<Rightarrow> ParseContext \<Rightarrow> Tokenizer \<Rightarrow> int \<Rightarrow> Token
     \<Rightarrow> int \<times> ParseContext \<times> Tokenizer \<times> Token" where
  "GetValue buf ctx tokenizer link val =
     (let f = GetValue_loop buf link
                \<lparr>gv_i = 0, gv_link_length = 0, gv_isSet = False, gv_bracket_stack = 0,
                  gv_context = ctx, gv_tokenizer = tokenizer, gv_value = val\<rparr>
      in (if gv_isSet f then i8_of_int (gv_link_length f) else 0,
          if gv_isSet f then gv_context f
          else PushParseError (gv_context f) (gv_tokenizer f) msg_expected_value,
          gv_tokenizer f,
          gv_value f))"

section \<open>The parser\<close>

datatype ExprType = ExprType_Invalid | ExprType_Var | ExprType_Const | ExprType_Func

text \<open>
  \<^verbatim>\<open>struct ExprNode\<close>.  The \<open>next\<close> links make the list that \<^verbatim>\<open>ParseText\<close> returns; the
  model keeps the nodes in that list.  \<open>first_parameter\<close> and the union stay zero.
\<close>

record ExprNode =
  expr_type :: ExprType
  expr_tokens :: "Token option"
  tokens_length :: int

text \<open>
  The state of the loop of \<^verbatim>\<open>ParseText\<close>: the context and the tokenizer behind the two
  pointer arguments, the list built through \<^verbatim>\<open>node_store_target\<close>, and the peeked token.
\<close>

record ParseText_frame =
  pt_context :: ParseContext
  pt_tokenizer :: Tokenizer
  pt_result :: "ExprNode list"
  pt_token :: Token

text \<open>
  The node that \<^verbatim>\<open>ParseText\<close> builds for a var directive: its chain is \<open>var\<close>, then
  \<open>assign\<close> (\<^verbatim>\<open>var->tokens = assign\<close>), then the value (\<^verbatim>\<open>assign->tokens = value\<close>).
\<close>

definition Var_node :: "Token \<Rightarrow> Token \<Rightarrow> Token \<Rightarrow> ExprNode" where
  "Var_node var assign val =
     \<lparr>expr_type = ExprType_Var,
      expr_tokens =
        Some (Token (type var)
                (Some (Token (type assign) (Some val) (string assign)
                         (string_length assign) (lines_traversed assign)))
                (string var) (string_length var) (lines_traversed var)),
      tokens_length = 3\<rparr>"

text \<open>The branch taken when the var tag is followed by the literal \<open>=\<close>.\<close>

definition ParseText_assign ::
  "char list \<Rightarrow> ParseText_frame \<Rightarrow> ParseContext \<Rightarrow> Token \<Rightarrow> Token \<Rightarrow> Tokenizer \<Rightarrow> ParseText_frame" where
  "ParseText_assign buf s ctx var isAssign tk =
     (let ctx1 = ParseContextAllocateMemory ctx sizeof_Token;
          assign = setTokenFromOther Token_zero isAssign;
          link = string assign + 1;
          ctx2 = ParseContextAllocateMemory ctx1 sizeof_Token
      in case GetValue buf ctx2 tk link Token_zero of
           (link_length, ctx3, tk3, val) \<Rightarrow>
             if link_length \<noteq> 0
             then s\<lparr>pt_context := ParseContextAllocateMemory ctx3 sizeof_ExprNode,
                    pt_result := pt_result s @ [Var_node var assign val],
                    pt_tokenizer := tk3\<lparr>at := link + link_length\<rparr>\<rparr>
             else s\<lparr>pt_context := ctx3, pt_tokenizer := tk3\<rparr>)"

text \<open>The branch taken when a var tag was consumed.\<close>

definition ParseText_var :: "char list \<Rightarrow> ParseText_frame \<Rightarrow> Token \<Rightarrow> Tokenizer \<Rightarrow> ParseText_frame" where
  "ParseText_var buf s isVar tk =
     (let ctx1 = ParseContextAllocateMemory (pt_context s) sizeof_Token;
          var = setTokenFromOther Token_zero isVar;
          tk1 = tk\<lparr>at := string var + string_length var\<rparr>
      in case RequireToken buf tk1 ''='' Token_zero of
           (matched, isAssign, tk2) \<Rightarrow>
             if matched then ParseText_assign buf s ctx1 var isAssign tk2
             else s\<lparr>pt_context := PushParseError ctx1 tk2 msg_malformed_tag,
                    pt_tokenizer := tk2\<rparr>)"

text \<open>The branch taken when a symbol token was consumed.\<close>

definition ParseText_symbol :: "char list \<Rightarrow> ParseText_frame \<Rightarrow> Token \<Rightarrow> Tokenizer \<Rightarrow> ParseText_frame" where
  "ParseText_symbol buf s symbol tk =
     (if TokenMatch buf symbol ''*'' then s\<lparr>pt_tokenizer := tk\<rparr>
      else if TokenMatch buf symbol ''|'' then s\<lparr>pt_tokenizer := tk\<rparr>
      else if TokenMatch buf symbol [CHR 0x60] then s\<lparr>pt_tokenizer := tk\<rparr>
      else s\<lparr>pt_context := PushParseError (pt_context s) tk (msg_unexpected_symbol buf symbol),
             pt_tokenizer := tk\<rparr>)"

text \<open>One pass through the body of the \<^verbatim>\<open>while\<close> loop, up to and including the new peek.\<close>

definition ParseText_body :: "char list \<Rightarrow> ParseText_frame \<Rightarrow> ParseText_frame" where
  "ParseText_body buf s =
     (let s1 =
        (case RequireTokenType buf (pt_tokenizer s) Token_Var Token_zero of
           (is_var, isVar, tk) \<Rightarrow>
             if is_var then ParseText_var buf s isVar tk
             else (case RequireTokenType buf (pt_tokenizer s) Token_Symbol Token_zero of
                     (is_symbol, symbol, tk) \<Rightarrow>
                       if is_symbol then ParseText_symbol buf s symbol tk
                       else (case RequireTokenType buf (pt_tokenizer s) Token_DoubleNewline
                                    Token_zero of
                               (is_newline, text, tk) \<Rightarrow>
                                 if is_newline then s\<lparr>pt_tokenizer := tk\<rparr> else s)))
      in s1\<lparr>pt_token := PeekToken buf (pt_tokenizer s1)\<rparr>)"

text \<open>
  The \<^verbatim>\<open>while\<close> loop: it is left when the peeked token has type \<^verbatim>\<open>Token_None\<close>, or
  by the \<^verbatim>\<open>break\<close> behind the body when the context holds an error.  It may run forever,
  so the loop is a partial function: \<open>None\<close> is the value of a run that never leaves
  the loop.
\<close>

partial_function (option) ParseText_loop :: "char list \<Rightarrow> ParseText_frame \<Rightarrow> ParseText_frame option" where
  "ParseText_loop buf s =
     (if type (pt_token s) = Token_None then Some s
      else if 0 < error_stack_size (pt_context (ParseText_body buf s))
      then Some (ParseText_body buf s)
      else ParseText_loop buf (ParseText_body buf s))"

declare ParseText_loop.simps [code]

text \<open>The state in which \<^verbatim>\<open>ParseText\<close> enters its loop.\<close>

definition ParseText_start :: "char list \<Rightarrow> ParseContext \<Rightarrow> Tokenizer \<Rightarrow> ParseText_frame" where
  "ParseText_start buf ctx tokenizer =
     \<lparr>pt_context = ctx, pt_tokenizer = tokenizer, pt_result = [],
      pt_token = PeekToken buf tokenizer\<rparr>"

text \<open>
  \<^verbatim>\<open>ParseText\<close> returns the node list; the context and the tokenizer it leaves behind are
  returned with it.
\<close>

definition ParseText ::
  "char list \<Rightarrow> ParseContext \<Rightarrow> Tokenizer \<Rightarrow> (ExprNode list \<times> ParseContext \<times> Tokenizer) option" where
  "ParseText buf ctx tokenizer =
     map_option (\<lambda>s. (pt_result s, pt_context s, pt_tokenizer s))
       (ParseText_loop buf (ParseText_start buf ctx tokenizer))"

text \<open>
  The zero-initialised context of \<^verbatim>\<open>main\<close> and the tokenizer that \<^verbatim>\<open>ProcessFile\<close> builds.
\<close>

definition ParseContext_zero :: ParseContext where
  "ParseContext_zero =
     \<lparr>blocks = [], error_stack_size = 0, error_stack_size_max = 0, error_stack = None\<rparr>"

definition Tokenizer_start :: "string \<Rightarrow> Tokenizer" where
  "Tokenizer_start filename = \<lparr>at = 0, line = 1, source_file = filename, break_text_by_commas = 0\<rparr>"

text \<open>The errors held by a context, in the order of their slots.\<close>

definition retained_errors :: "ParseContext \<Rightarrow> ParseError option list" where
  "retained_errors ctx =
     (case error_stack ctx of
        None \<Rightarrow> []
      | Some a \<Rightarrow> take (nat (error_stack_size ctx)) a)"

section \<open>Reading results\<close>


text \<open>The characters of the buffer that a token spans.\<close>

definition Token_text :: "char list \<Rightarrow> Token \<Rightarrow> string" where
  "Token_text buf token =
     map (\<lambda>k. buf_at buf (string token + int k)) [0..<nat (string_length token)]"


text \<open>
  Values for stating runs of the parser on a file \<^verbatim>\<open>main.or\<close> that starts from the zero
  context: a tokenizer at an offset and a line, a context whose arena is one default block
  filled up to a position and whose collector holds the given errors, and a loop state.
\<close>

definition tokenizer_at :: "int \<Rightarrow> int \<Rightarrow> Tokenizer" where
  "tokenizer_at a l = \<lparr>at = a, line = l, source_file = ''main.or'', break_text_by_commas = 0\<rparr>"

definition error_at :: "int \<Rightarrow> string \<Rightarrow> ParseError" where
  "error_at l msg = \<lparr>error_file = ''main.or'', error_line = l, message = msg\<rparr>"

definition context_with :: "int \<Rightarrow> ParseError list \<Rightarrow> ParseContext" where
  "context_with pos errors =
     \<lparr>blocks = [\<lparr>block_size = 4096, alloc_position = pos\<rparr>],
      error_stack_size = int (length errors),
      error_stack_size_max = (if errors = [] then 0 else 32),
      error_stack =
        (if errors = [] then None
         else Some (map Some errors @ replicate (32 - length errors) None))\<rparr>"

definition frame_with ::
  "ParseContext \<Rightarrow> Tokenizer \<Rightarrow> ExprNode list \<Rightarrow> Token \<Rightarrow> ParseText_frame" where
  "frame_with ctx tokenizer nodes token =
     \<lparr>pt_context = ctx, pt_tokenizer = tokenizer, pt_result = nodes, pt_token = token\<rparr>"

text \<open>The inputs of the runs below.\<close>

definition input_digit :: string where
  "input_digit = ''1''"

definition input_title :: string where
  "input_title = ''var title='' @ [CHR 0x22] @ ''Hello'' @ [CHR 0x22] @ '';''"

definition input_name_123 :: string where
  "input_name_123 = ''var NAME = 123;''"

definition input_name_12_3 :: string where
  "input_name_12_3 = ''var NAME = 12 3;''"

definition input_name_12_space :: string where
  "input_name_12_space = ''var NAME = 12 ;''"

definition input_no_assign :: string where
  "input_no_assign = ''var NAME 123;''"

definition input_int_then_string :: string where
  "input_int_then_string = ''var x=1 '' @ [CHR 0x22] @ ''s'' @ [CHR 0x22] @ '';''"


section \<open>Sequences of diagnostics\<close>

text \<open>Pushing a list of diagnostics, each with the tokenizer of its call, one after the other.\<close>

fun PushParseErrors :: "ParseContext \<Rightarrow> (Tokenizer \<times> string) list \<Rightarrow> ParseContext" where
  "PushParseErrors ctx [] = ctx"
| "PushParseErrors ctx (d # ds) = PushParseErrors (PushParseError ctx (fst d) (snd d)) ds"

text \<open>The error that \<^verbatim>\<open>PushParseError\<close> stores for a tokenizer and a message.\<close>

definition error_of :: "Tokenizer \<times> string \<Rightarrow> ParseError" where
  "error_of d = \<lparr>error_file = source_file (fst d), error_line = line (fst d), message = snd d\<rparr>"

text \<open>
  The character \<^verbatim>\<open>value->string[value->string_length-1]\<close> that \<^verbatim>\<open>GetValue\<close> tests after it has
  taken an Int token, and that the diagnostic is formatted with.
\<close>

definition Int_last_char :: "char list \<Rightarrow> Token \<Rightarrow> char" where
  "Int_last_char buf v = buf_at buf (string v + (string_length v - 1))"

text \<open>
  The variables of \<^verbatim>\<open>GetValue\<close> when its loop reaches the digit \<^verbatim>\<open>1\<close> of \<^verbatim>\<open>var NAME = 12 ;\<close>
  or of \<^verbatim>\<open>var NAME = 12 3;\<close>, called as \<^verbatim>\<open>ParseText\<close> calls it: \<open>link\<close> is the offset 10 behind
  \<^verbatim>\<open>=\<close>, one pass (for the space) is done, nothing is set, the collector holds nothing.
\<close>

definition frame_at_first_digit :: GetValue_frame where
  "frame_at_first_digit =
     \<lparr>gv_i = 1, gv_link_length = 1, gv_isSet = False, gv_bracket_stack = 0,
      gv_context = context_with 96 [], gv_tokenizer = tokenizer_at 10 1, gv_value = Token_zero\<rparr>"

text \<open>
  The collector as \<^verbatim>\<open>PushParseError\<close> leaves it: the log exists, has 32 slots, and the count
  lies between 0 and 32.
\<close>

definition collector_ok :: "ParseContext \<Rightarrow> bool" where
  "collector_ok ctx =
     (case error_stack ctx of
        None \<Rightarrow> False
      | Some a \<Rightarrow>
          length a = 32 \<and> error_stack_size_max ctx = 32
          \<and> 0 \<le> error_stack_size ctx \<and> error_stack_size ctx \<le> 32)"

definition forty_errors :: "(Tokenizer \<times> string) list" where
  "forty_errors = map (\<lambda>n. (tokenizer_at 0 (int n), ''error'')) [0..<40]"

text \<open>Whether a message is among the errors that a context holds.\<close>

definition holds_message :: "ParseContext \<Rightarrow> string \<Rightarrow> bool" where
  "holds_message ctx msg =
     list_ex (\<lambda>slot. case slot of None \<Rightarrow> False | Some e \<Rightarrow> message e = msg)
       (retained_errors ctx)"

text \<open>The rendering of \<^verbatim>\<open>Unexpected symbol '%.*s'\<close> for the text \<^verbatim>\<open>;\<close>.\<close>

definition semicolon_diagnostic :: string where
  "semicolon_diagnostic = ''Unexpected symbol '' @ [CHR 0x27] @ '';'' @ [CHR 0x27]"

abbreviation clean_context :: "ParseContext \<Rightarrow> bool" where
  "clean_context ctx \<equiv> \<not> holds_message ctx semicolon_diagnostic"

section \<open>Positions of the lexer's rules\<close>

text \<open>
  The tests of the branches of \<^verbatim>\<open>GetNextTokenFromBuffer\<close> at one offset of the buffer:
  the keyword tests, the disjunction of all tests that end the loop with a token, and
  the case in which the loop moves on to the next offset.
\<close>

definition var_at :: "char list \<Rightarrow> int \<Rightarrow> bool" where
  "var_at buf p =
     (buf_at buf p = CHR ''v'' \<and> buf_at buf (p + 1) = CHR ''a'' \<and> buf_at buf (p + 2) = CHR ''r'')"

definition const_at :: "char list \<Rightarrow> int \<Rightarrow> bool" where
  "const_at buf p =
     (buf_at buf p = CHR ''c'' \<and> buf_at buf (p + 1) = CHR ''o'' \<and> buf_at buf (p + 2) = CHR ''n''
      \<and> buf_at buf (p + 3) = CHR ''s'' \<and> buf_at buf (p + 4) = CHR ''t'')"

definition rule_at :: "char list \<Rightarrow> int \<Rightarrow> bool" where
  "rule_at buf p =
     ((buf_at buf p = CHR 0x0A \<and> buf_at buf (p + 1) = CHR 0x0A)
      \<or> var_at buf p \<or> const_at buf p \<or> buf_at buf p = CHR 0x22
      \<or> CharIsDigit (char_int (buf_at buf p))
      \<or> CharIsSymbol (char_int (buf_at buf p)) \<and> \<not> CharIsSpace (char_int (buf_at buf p)))"

definition skipped :: "char list \<Rightarrow> int \<Rightarrow> bool" where
  "skipped buf p = (buf_at buf p \<noteq> NUL \<and> \<not> rule_at buf p)"

section \<open>The prefix tree\<close>

text \<open>
  \<^verbatim>\<open>struct KeywordPrefixTreeNode\<close>.  The nodes live in the arena; the model keeps them in a
  list and a pointer to a node is its index in the list, \<open>None\<close> being the null pointer.
  \<open>prefix\<close> and the value are borrowed C strings (\<open>node_value\<close> is \<open>None\<close> for the null
  pointer).
\<close>

record KeywordPrefixTreeNode =
  prefix :: cstr
  prefix_length :: int
  node_value :: "cstr option"
  value_length :: int
  have_child :: "nat option"
  no_have_child :: "nat option"

text \<open>
  A \<^verbatim>\<open>KeywordPrefixTreeNode **\<close>: the address of the root pointer, or of the \<open>have_child\<close> or the
  \<open>no_have_child\<close> field of a node.  The source takes the address of a field of \<open>node\<close>
  after it has moved \<open>node\<close> on to a child, so the node of a slot can be the null pointer;
  a write through such a slot is a memory fault.
\<close>

datatype node_slot = Tree_slot | Have_child_slot "nat option" | No_have_child_slot "nat option"

datatype memory_fault = Invalid_write | Invalid_read

text \<open>The memory that the tree functions work on: the context, the nodes, the root pointer.\<close>

record tree_memory =
  tm_context :: ParseContext
  tm_nodes :: "KeywordPrefixTreeNode list"
  tm_tree :: "nat option"

definition sizeof_KeywordPrefixTreeNode :: int where
  "sizeof_KeywordPrefixTreeNode = 48"

text \<open>
  The counting loop at the head of both tree functions; \<open>i\<close> is the loop index and
  \<open>matching\<close> the counter \<^verbatim>\<open>matching_key_characters\<close>.
\<close>

function matching_key_characters :: "cstr \<Rightarrow> int \<Rightarrow> cstr \<Rightarrow> int \<Rightarrow> int \<Rightarrow> int \<Rightarrow> int" where
  "matching_key_characters key key_length pre pre_length i matching =
     (if i < pre_length \<and> i < key_length
      then (if cstr_at key i = cstr_at pre i
            then matching_key_characters key key_length pre pre_length (i + 1) (matching + 1)
            else matching)
      else matching)"
  by pat_completeness auto
termination
  by (relation "measure (\<lambda>(key, key_length, pre, pre_length, i, matching). nat (key_length - i))") auto

declare matching_key_characters.simps [simp del]

text \<open>\<^verbatim>\<open>*node_target = p\<close>.\<close>

definition write_slot :: "tree_memory \<Rightarrow> node_slot \<Rightarrow> nat option \<Rightarrow> memory_fault + tree_memory" where
  "write_slot m slot p =
     (case slot of
        Tree_slot \<Rightarrow> Inr (m\<lparr>tm_tree := p\<rparr>)
      | Have_child_slot None \<Rightarrow> Inl Invalid_write
      | Have_child_slot (Some a) \<Rightarrow>
          if a < length (tm_nodes m)
          then Inr (m\<lparr>tm_nodes := (tm_nodes m)[a := (tm_nodes m ! a)\<lparr>have_child := p\<rparr>]\<rparr>)
          else Inl Invalid_write
      | No_have_child_slot None \<Rightarrow> Inl Invalid_write
      | No_have_child_slot (Some a) \<Rightarrow>
          if a < length (tm_nodes m)
          then Inr (m\<lparr>tm_nodes := (tm_nodes m)[a := (tm_nodes m ! a)\<lparr>no_have_child := p\<rparr>]\<rparr>)
          else Inl Invalid_write)"

text \<open>A new node from the arena, with its fields as the source sets them.\<close>

definition allocate_node :: "tree_memory \<Rightarrow> KeywordPrefixTreeNode \<Rightarrow> tree_memory" where
  "allocate_node m n =
     m\<lparr>tm_context := ParseContextAllocateMemory (tm_context m) sizeof_KeywordPrefixTreeNode,
       tm_nodes := tm_nodes m @ [n]\<rparr>"

text \<open>
  The loop of \<^verbatim>\<open>InsertKeywordIntoTree\<close>.  The walk may enter a cycle of nodes, so the loop
  is a partial function.
\<close>

partial_function (option) InsertKeyword_loop ::
  "cstr \<Rightarrow> int \<Rightarrow> cstr \<Rightarrow> int \<Rightarrow> tree_memory \<Rightarrow> node_slot \<Rightarrow> nat option
     \<Rightarrow> (memory_fault + tree_memory) option" where
  "InsertKeyword_loop key key_length val val_length m node_target node =
     (case node of
        None \<Rightarrow>
          Some (write_slot
                  (allocate_node m
                     \<lparr>prefix = key, prefix_length = key_length, node_value = Some val,
                      value_length = val_length, have_child = None, no_have_child = None\<rparr>)
                  node_target (Some (length (tm_nodes m))))
      | Some a \<Rightarrow>
          if \<not> a < length (tm_nodes m) then Some (Inl Invalid_read)
          else if 0 < matching_key_characters key key_length (prefix (tm_nodes m ! a))
                        (prefix_length (tm_nodes m ! a)) 0 0
          then (if prefix_length (tm_nodes m ! a) \<le> 1
                then InsertKeyword_loop key key_length val val_length m
                       (Have_child_slot (have_child (tm_nodes m ! a)))
                       (have_child (tm_nodes m ! a))
                else (case write_slot
                             (allocate_node m
                                \<lparr>prefix = key,
                                 prefix_length =
                                   matching_key_characters key key_length (prefix (tm_nodes m ! a))
                                     (prefix_length (tm_nodes m ! a)) 0 0,
                                 node_value = None, value_length = 0,
                                 have_child = Some a, no_have_child = None\<rparr>)
                             node_target (Some (length (tm_nodes m))) of
                        Inl fault \<Rightarrow> Some (Inl fault)
                      | Inr m' \<Rightarrow>
                          InsertKeyword_loop key key_length val val_length m'
                            (No_have_child_slot (Some (length (tm_nodes m)))) None))
          else InsertKeyword_loop key key_length val val_length m
                 (No_have_child_slot (no_have_child (tm_nodes m ! a)))
                 (no_have_child (tm_nodes m ! a)))"

declare InsertKeyword_loop.simps [code]

definition InsertKeywordIntoTree ::
  "tree_memory \<Rightarrow> cstr \<Rightarrow> int \<Rightarrow> cstr \<Rightarrow> int \<Rightarrow> (memory_fault + tree_memory) option" where
  "InsertKeywordIntoTree m key key_length val val_length =
     InsertKeyword_loop key key_length val val_length m Tree_slot (tm_tree m)"

text \<open>
  The loop of \<^verbatim>\<open>GetKeywordValueFromTree\<close>.  \<open>value_ptr\<close> is \<open>None\<close> for a null pointer and
  otherwise holds the content of the pointer's target; with a null \<open>value_ptr\<close> the loop
  stays on a matching node forever.  The result is \<^verbatim>\<open>value_length\<close> and the target of
  \<open>value_ptr\<close>.
\<close>

partial_function (option) GetKeywordValue_loop ::
  "KeywordPrefixTreeNode list \<Rightarrow> cstr \<Rightarrow> int \<Rightarrow> cstr option option \<Rightarrow> nat option
     \<Rightarrow> (memory_fault + int \<times> cstr option option) option" where
  "GetKeywordValue_loop nodes keyword keyword_length value_ptr node =
     (case node of
        None \<Rightarrow> Some (Inr (0, value_ptr))
      | Some a \<Rightarrow>
          if \<not> a < length nodes then Some (Inl Invalid_read)
          else if matching_key_characters keyword keyword_length (prefix (nodes ! a))
                    (prefix_length (nodes ! a)) 0 0 = prefix_length (nodes ! a)
          then (if matching_key_characters keyword keyword_length (prefix (nodes ! a))
                      (prefix_length (nodes ! a)) 0 0 = keyword_length
                then (case value_ptr of
                        Some old \<Rightarrow> Some (Inr (value_length (nodes ! a), Some (node_value (nodes ! a))))
                      | None \<Rightarrow>
                          GetKeywordValue_loop nodes keyword keyword_length value_ptr node)
                else GetKeywordValue_loop nodes keyword keyword_length value_ptr
                       (have_child (nodes ! a)))
          else GetKeywordValue_loop nodes keyword keyword_length value_ptr
                 (no_have_child (nodes ! a)))"

declare GetKeywordValue_loop.simps [code]

definition GetKeywordValueFromTree ::
  "tree_memory \<Rightarrow> cstr \<Rightarrow> int \<Rightarrow> cstr option option
     \<Rightarrow> (memory_fault + int \<times> cstr option option) option" where
  "GetKeywordValueFromTree m keyword keyword_length value_ptr =
     GetKeywordValue_loop (tm_nodes m) keyword keyword_length value_ptr (tm_tree m)"

text \<open>Insertions one after the other, and a lookup with a non-null \<open>value_ptr\<close>.\<close>

definition tree_empty :: tree_memory where
  "tree_empty = \<lparr>tm_context = ParseContext_zero, tm_nodes = [], tm_tree = None\<rparr>"

fun InsertKeywords ::
  "(string \<times> string) list \<Rightarrow> tree_memory \<Rightarrow> (memory_fault + tree_memory) option" where
  "InsertKeywords [] m = Some (Inr m)"
| "InsertKeywords (kv # rest) m =
     (case InsertKeywordIntoTree m (fst kv, 0) (int (length (fst kv))) (snd kv, 0)
             (int (length (snd kv))) of
        Some (Inr m') \<Rightarrow> InsertKeywords rest m'
      | r \<Rightarrow> r)"

definition lookup_keyword ::
  "tree_memory \<Rightarrow> string \<Rightarrow> (memory_fault + int \<times> cstr option option) option" where
  "lookup_keyword m k = GetKeywordValueFromTree m (k, 0) (int (length k)) (Some None)"

definition leaf_node :: "string \<Rightarrow> string \<Rightarrow> KeywordPrefixTreeNode" where
  "leaf_node k v =
     \<lparr>prefix = (k, 0), prefix_length = int (length k), node_value = Some (v, 0),
      value_length = int (length v), have_child = None, no_have_child = None\<rparr>"

definition split_node :: "string \<Rightarrow> int \<Rightarrow> nat \<Rightarrow> nat \<Rightarrow> KeywordPrefixTreeNode" where
  "split_node k n have no_have =
     \<lparr>prefix = (k, 0), prefix_length = n, node_value = None, value_length = 0,
      have_child = Some have, no_have_child = Some no_have\<rparr>"

text \<open>The trees that the insertions of the runs below build.\<close>

definition tree_ab_abc :: tree_memory where
  "tree_ab_abc =
     \<lparr>tm_context = context_with 144 [],
      tm_nodes = [leaf_node ''ab'' ''1'', split_node ''abc'' 2 0 2, leaf_node ''abc'' ''2''],
      tm_tree = Some 1\<rparr>"

definition tree_abc_ab :: tree_memory where
  "tree_abc_ab =
     \<lparr>tm_context = context_with 144 [],
      tm_nodes = [leaf_node ''abc'' ''1'', split_node ''ab'' 2 0 2, leaf_node ''ab'' ''2''],
      tm_tree = Some 1\<rparr>"

section \<open>Facts about the lexer\<close>

lemma int_scan_ge: "len \<le> int_scan buf s strlen len"
  by (induction buf s strlen len rule: int_scan.induct) (subst int_scan.simps, auto)

lemma escaped_scan_ge: "n \<le> escaped_scan delim buf s n escaped"
  by (induction delim buf s n escaped rule: escaped_scan.induct)
     (subst escaped_scan.simps, auto)

lemma CalculateCStringLength_loop_ge: "n \<le> CalculateCStringLength_loop p n"
  by (induction p n rule: CalculateCStringLength_loop.induct)
     (subst CalculateCStringLength_loop.simps, auto)

lemma symbol_run_ge: "j \<le> symbol_run buf buffer j"
  by (induction buf buffer j rule: symbol_run.induct) (subst symbol_run.simps, auto)

lemma break_out_ge: "i \<le> j \<Longrightarrow> i \<le> break_out lits buf buffer i j"
  using CalculateCStringLength_loop_ge [of 0]
  by (induction lits) (auto simp: CalculateCStringLength_def)

lemma scan_length_nonneg:
  "0 \<le> string_length token \<Longrightarrow> 0 \<le> string_length (GetNextToken_scan buf buffer i token)"
proof (induction buf buffer i token rule: GetNextToken_scan.induct)
  case (1 buf buffer i token)
  have a: "0 \<le> escaped_scan d buf (buffer + i) 0 True" for d
    by (rule escaped_scan_ge)
  have b: "0 \<le> int_scan buf (buffer + i) 0 0"
    by (rule int_scan_ge)
  have c: "i \<le> break_out symbolic_blocks_to_break_out buf buffer i (symbol_run buf buffer (i + 1))"
    using symbol_run_ge [of "i + 1" buf buffer] by (intro break_out_ge) simp
  show ?case
    using 1 a b c
    by (subst GetNextToken_scan.simps)
       (auto simp add: add_nonneg_nonneg)
qed

lemma token_length_nonneg: "0 \<le> string_length (GetNextTokenFromBuffer buf tk)"
  using scan_length_nonneg [of Token_zero buf "at tk" 0]
  by (simp add: GetNextTokenFromBuffer_def with_lines_def Token_zero_def)

lemma GetValue_other_i: "gv_i f \<le> gv_i (GetValue_other buf link f)"
  using token_length_nonneg [of buf "gv_tokenizer f"]
  by (auto simp: GetValue_other_def GetValue_int_def RequireTokenType_def Let_def)

text \<open>
  The loop of \<^verbatim>\<open>GetValue\<close> ends: it goes on only at a character other than NUL, and each
  pass moves \<open>i\<close> forward, since no token has a negative length.
\<close>

termination GetValue_loop
proof (relation "measure (\<lambda>(buf, link, f). nat (int (length buf) - (link + gv_i f)))", goal_cases)
  case 1
  show ?case by simp
next
  case (2 buf link f)
  have "link + gv_i f < int (length buf)"
    using 2(1) by (auto simp: buf_at_def split: if_splits)
  then show ?case
    using GetValue_other_i [of f buf link] by simp
qed

declare GetValue_loop.simps [simp del]

section \<open>Runs of the parser\<close>

text \<open>
  A state in which the peeked token is not \<^verbatim>\<open>Token_None\<close>, the body changes nothing and the
  collector is empty is entered again and again: the loop never returns from it.
\<close>

lemma ParseText_loop_stuck:
  assumes "type (pt_token s) \<noteq> Token_None" and "ParseText_body buf s = s"
    and "\<not> 0 < error_stack_size (pt_context s)"
  shows "ParseText_loop buf s = None"
proof (rule ccontr)
  assume "ParseText_loop buf s \<noteq> None"
  then obtain r where r: "ParseText_loop buf s = Some r" by auto
  have "\<not> (buf = buf \<and> s = s)"
  proof (rule ParseText_loop.raw_induct [where P = "\<lambda>b x y. \<not> (b = buf \<and> x = s)", OF _ r])
    fix loop :: "char list \<Rightarrow> ParseText_frame \<Rightarrow> ParseText_frame option" and b x y
    assume IH: "\<And>b x y. loop b x = Some y \<Longrightarrow> \<not> (b = buf \<and> x = s)"
      and step: "(if type (pt_token x) = Token_None then Some x
                  else if 0 < error_stack_size (pt_context (ParseText_body b x))
                       then Some (ParseText_body b x)
                       else loop b (ParseText_body b x)) = Some y"
    show "\<not> (b = buf \<and> x = s)"
    proof
      assume "b = buf \<and> x = s"
      with step assms have "loop buf s = Some y" by simp
      with IH show False by blast
    qed
  qed
  then show False by simp
qed

lemma ParseText_loop_step:
  assumes "type (pt_token s) \<noteq> Token_None" and "ParseText_body buf s = s'"
    and "\<not> 0 < error_stack_size (pt_context s')"
  shows "ParseText_loop buf s = ParseText_loop buf s'"
  using assms by (subst ParseText_loop.simps) simp

lemma ParseText_loop_break:
  assumes "type (pt_token s) \<noteq> Token_None" and "ParseText_body buf s = s'"
    and "0 < error_stack_size (pt_context s')"
  shows "ParseText_loop buf s = Some s'"
  using assms by (subst ParseText_loop.simps) simp

lemma ParseText_loop_done:
  assumes "type (pt_token s) = Token_None"
  shows "ParseText_loop buf s = Some s"
  using assms by (subst ParseText_loop.simps) simp

lemma Tokenizer_start_main: "Tokenizer_start ''main.or'' = tokenizer_at 0 1"
  by (simp add: Tokenizer_start_def tokenizer_at_def)

lemmas frame_simps = frame_with_def context_with_def ParseContext_zero_def Token_zero_def

subsection \<open>A lone digit\<close>

lemma start_digit:
  "ParseText_start input_digit ParseContext_zero (tokenizer_at 0 1) =
     frame_with ParseContext_zero (tokenizer_at 0 1) [] (Token Token_Int None 0 1 0)"
  by code_simp

lemma body_digit:
  "ParseText_body input_digit
     (frame_with ParseContext_zero (tokenizer_at 0 1) [] (Token Token_Int None 0 1 0)) =
   frame_with ParseContext_zero (tokenizer_at 0 1) [] (Token Token_Int None 0 1 0)"
  by code_simp

text \<open>
  C1 (the claim: for every null-terminated input buffer \<^verbatim>\<open>ParseText\<close> terminates, because
  the lexer always advances past some span).  The code does otherwise on the buffer \<^verbatim>\<open>1\<close>:
  the peeked token is an Int token, no branch of the loop body consumes an Int token at the
  top level, the peek does not move the cursor and no diagnostic is pushed, so the loop
  enters the same state again forever and \<^verbatim>\<open>ParseText\<close> never returns.
\<close>

theorem C1_ParseText_never_returns_on_digit:
  "ParseText input_digit ParseContext_zero (Tokenizer_start ''main.or'') = None"
proof -
  have "ParseText_loop input_digit
          (frame_with ParseContext_zero (tokenizer_at 0 1) [] (Token Token_Int None 0 1 0)) = None"
    by (rule ParseText_loop_stuck [OF _ body_digit]) (simp_all add: frame_simps)
  then show ?thesis
    by (simp add: ParseText_def Tokenizer_start_main start_digit)
qed

subsection \<open>A var tag with no assignment\<close>

lemma start_no_assign:
  "ParseText_start input_no_assign ParseContext_zero (tokenizer_at 0 1) =
     frame_with ParseContext_zero (tokenizer_at 0 1) [] (Token Token_Var None 0 13 0)"
  by code_simp

lemma body_no_assign:
  "ParseText_body input_no_assign
     (frame_with ParseContext_zero (tokenizer_at 0 1) [] (Token Token_Var None 0 13 0)) =
   frame_with (context_with 815 [error_at 1 msg_malformed_tag]) (tokenizer_at 13 1) []
     Token_zero"
  by code_simp

text \<open>
  C5: parsing \<^verbatim>\<open>var NAME 123;\<close> pushes the diagnostic \<^verbatim>\<open>Malformed tag.\<close> and returns the
  empty node list.  The var tag spans the whole buffer (no \<^verbatim>\<open>=\<close> or \<^verbatim>\<open>:\<close> ends it), the
  request for the literal \<^verbatim>\<open>=\<close> fails, the diagnostic is the only one in the collector and
  the loop is left by its \<^verbatim>\<open>break\<close>.
\<close>

theorem C5_no_assign_malformed_tag:
  "ParseText input_no_assign ParseContext_zero (Tokenizer_start ''main.or'') =
     Some ([], context_with 815 [error_at 1 ''Malformed tag.''], tokenizer_at 13 1)"
proof -
  have "ParseText_loop input_no_assign
          (frame_with ParseContext_zero (tokenizer_at 0 1) [] (Token Token_Var None 0 13 0)) =
        Some (frame_with (context_with 815 [error_at 1 msg_malformed_tag]) (tokenizer_at 13 1) []
                Token_zero)"
    by (rule ParseText_loop_break [OF _ body_no_assign]) (simp_all add: frame_simps)
  then show ?thesis
    by (simp add: ParseText_def Tokenizer_start_main start_no_assign frame_with_def
        msg_malformed_tag_def)
qed

subsection \<open>Two var directives and a blank line\<close>







subsection \<open>String and integer values\<close>

lemma start_title:
  "ParseText_start input_title ParseContext_zero (tokenizer_at 0 1) =
     frame_with ParseContext_zero (tokenizer_at 0 1) [] (Token Token_Var None 0 9 0)"
  by code_simp

lemma body_title:
  "ParseText_body input_title
     (frame_with ParseContext_zero (tokenizer_at 0 1) [] (Token Token_Var None 0 9 0)) =
   frame_with (context_with 96 []) (tokenizer_at 17 1) [] Token_zero"
  by code_simp

lemma start_name_123:
  "ParseText_start input_name_123 ParseContext_zero (tokenizer_at 0 1) =
     frame_with ParseContext_zero (tokenizer_at 0 1) [] (Token Token_Var None 0 9 0)"
  by code_simp

lemma body_name_123_1:
  "ParseText_body input_name_123
     (frame_with ParseContext_zero (tokenizer_at 0 1) [] (Token Token_Var None 0 9 0)) =
   frame_with (context_with 144 []) (tokenizer_at 12 1)
     [Var_node (Token Token_Var None 0 9 0) (Token Token_Symbol None 9 1 0)
        (Token Token_Int None 11 3 0)]
     (Token Token_Int None 12 2 0)"
  by code_simp

lemma body_name_123_2:
  "ParseText_body input_name_123
     (frame_with (context_with 144 []) (tokenizer_at 12 1)
        [Var_node (Token Token_Var None 0 9 0) (Token Token_Symbol None 9 1 0)
           (Token Token_Int None 11 3 0)]
        (Token Token_Int None 12 2 0)) =
   frame_with (context_with 144 []) (tokenizer_at 12 1)
     [Var_node (Token Token_Var None 0 9 0) (Token Token_Symbol None 9 1 0)
        (Token Token_Int None 11 3 0)]
     (Token Token_Int None 12 2 0)"
  by code_simp

text \<open>
  C2 (the claim: every well-formed var directive with a quoted string or an integer value
  yields exactly one Var node).  The code does otherwise.  For \<^verbatim>\<open>var title="Hello";\<close> the
  quote is the first character behind \<^verbatim>\<open>=\<close>, so \<^verbatim>\<open>GetValue\<close> leaves its loop with
  \<^verbatim>\<open>link_length\<close> 0, its result 0 reads as a failure and no node is appended, although no
  diagnostic was pushed: the parse returns the empty list and an empty collector.  For
  \<^verbatim>\<open>var NAME = 123;\<close> the node is appended, but \<^verbatim>\<open>link_length\<close> is 2 and the cursor is put
  back onto the second digit; the Int token \<^verbatim>\<open>23\<close> found there is consumed by no branch and
  the parse never returns.
\<close>

theorem C2_string_value_without_node:
  "ParseText input_title ParseContext_zero (Tokenizer_start ''main.or'') =
     Some ([], context_with 96 [], tokenizer_at 17 1)
   \<and> ParseText input_name_123 ParseContext_zero (Tokenizer_start ''main.or'') = None"
proof -
  let ?t0 = "frame_with ParseContext_zero (tokenizer_at 0 1) [] (Token Token_Var None 0 9 0)"
  let ?t1 = "frame_with (context_with 96 []) (tokenizer_at 17 1) [] Token_zero"
  let ?s1 = "frame_with (context_with 144 []) (tokenizer_at 12 1)
     [Var_node (Token Token_Var None 0 9 0) (Token Token_Symbol None 9 1 0)
        (Token Token_Int None 11 3 0)]
     (Token Token_Int None 12 2 0)"
  have "ParseText_loop input_title ?t0 = ParseText_loop input_title ?t1"
    by (rule ParseText_loop_step [OF _ body_title]) (simp_all add: frame_simps)
  also have "\<dots> = Some ?t1"
    by (rule ParseText_loop_done) (simp add: frame_simps)
  finally have a: "ParseText input_title ParseContext_zero (Tokenizer_start ''main.or'') =
      Some ([], context_with 96 [], tokenizer_at 17 1)"
    by (simp add: ParseText_def Tokenizer_start_main start_title frame_with_def)
  have "ParseText_loop input_name_123 ?t0 = ParseText_loop input_name_123 ?s1"
    by (rule ParseText_loop_step [OF _ body_name_123_1]) (simp_all add: frame_simps)
  also have "\<dots> = None"
    by (rule ParseText_loop_stuck [OF _ body_name_123_2]) (simp_all add: frame_simps)
  finally have b: "ParseText input_name_123 ParseContext_zero (Tokenizer_start ''main.or'') = None"
    by (simp add: ParseText_def Tokenizer_start_main start_name_123)
  from a b show ?thesis by simp
qed

subsection \<open>Whitespace inside and behind an integer\<close>

lemma start_name_12_3:
  "ParseText_start input_name_12_3 ParseContext_zero (tokenizer_at 0 1) =
     frame_with ParseContext_zero (tokenizer_at 0 1) [] (Token Token_Var None 0 9 0)"
  by code_simp

lemma body_name_12_3_1:
  "ParseText_body input_name_12_3
     (frame_with ParseContext_zero (tokenizer_at 0 1) [] (Token Token_Var None 0 9 0)) =
   frame_with (context_with 144 []) (tokenizer_at 12 1)
     [Var_node (Token Token_Var None 0 9 0) (Token Token_Symbol None 9 1 0)
        (Token Token_Int None 11 4 0)]
     (Token Token_Int None 12 3 0)"
  by code_simp

lemma body_name_12_3_2:
  "ParseText_body input_name_12_3
     (frame_with (context_with 144 []) (tokenizer_at 12 1)
        [Var_node (Token Token_Var None 0 9 0) (Token Token_Symbol None 9 1 0)
           (Token Token_Int None 11 4 0)]
        (Token Token_Int None 12 3 0)) =
   frame_with (context_with 144 []) (tokenizer_at 12 1)
     [Var_node (Token Token_Var None 0 9 0) (Token Token_Symbol None 9 1 0)
        (Token Token_Int None 11 4 0)]
     (Token Token_Int None 12 3 0)"
  by code_simp

lemma text_name_12_3:
  "Token_text input_name_12_3 (Token Token_Int None 11 4 0) = ''12 3''"
  by code_simp

lemma GetValue_name_12_3:
  "GetValue input_name_12_3 (context_with 96 []) (tokenizer_at 10 1) 10 Token_zero =
     (2, context_with 96 [], tokenizer_at 15 1, Token Token_Int None 11 4 0)"
  by code_simp

lemma start_name_12_space:
  "ParseText_start input_name_12_space ParseContext_zero (tokenizer_at 0 1) =
     frame_with ParseContext_zero (tokenizer_at 0 1) [] (Token Token_Var None 0 9 0)"
  by code_simp

lemma body_name_12_space:
  "ParseText_body input_name_12_space
     (frame_with ParseContext_zero (tokenizer_at 0 1) [] (Token Token_Var None 0 9 0)) =
   frame_with
     (context_with 939
        [error_at 1 ''Expected Int value but had incorrect char  .'',
         error_at 1 ''Expected value before endline''])
     (tokenizer_at 14 1) [] Token_zero"
  by code_simp

text \<open>
  C4, the claim as stated fails: for \<^verbatim>\<open>var NAME = 12 3;\<close> the pass of the loop body that
  handles the directive appends a Var node whose value token is the span \<^verbatim>\<open>12 3\<close> and leaves
  the collector empty (the value is accepted), and the parse never returns, so it never
  fails with a diagnostic.
\<close>

theorem C4_embedded_space_accepted:
  "ParseText_body input_name_12_3
     (ParseText_start input_name_12_3 ParseContext_zero (Tokenizer_start ''main.or'')) =
   frame_with (context_with 144 []) (tokenizer_at 12 1)
     [Var_node (Token Token_Var None 0 9 0) (Token Token_Symbol None 9 1 0)
        (Token Token_Int None 11 4 0)]
     (Token Token_Int None 12 3 0)
   \<and> Token_text input_name_12_3 (Token Token_Int None 11 4 0) = ''12 3''
   \<and> retained_errors (context_with 144 []) = []
   \<and> ParseText input_name_12_3 ParseContext_zero (Tokenizer_start ''main.or'') = None"
proof -
  let ?s0 = "frame_with ParseContext_zero (tokenizer_at 0 1) [] (Token Token_Var None 0 9 0)"
  let ?s1 = "frame_with (context_with 144 []) (tokenizer_at 12 1)
     [Var_node (Token Token_Var None 0 9 0) (Token Token_Symbol None 9 1 0)
        (Token Token_Int None 11 4 0)]
     (Token Token_Int None 12 3 0)"
  have "ParseText_loop input_name_12_3 ?s0 = ParseText_loop input_name_12_3 ?s1"
    by (rule ParseText_loop_step [OF _ body_name_12_3_1]) (simp_all add: frame_simps)
  also have "\<dots> = None"
    by (rule ParseText_loop_stuck [OF _ body_name_12_3_2]) (simp_all add: frame_simps)
  finally have "ParseText input_name_12_3 ParseContext_zero (Tokenizer_start ''main.or'') = None"
    by (simp add: ParseText_def Tokenizer_start_main start_name_12_3)
  then show ?thesis
    using body_name_12_3_1 text_name_12_3
    by (simp add: Tokenizer_start_main start_name_12_3 retained_errors_def context_with_def)
qed

subsection \<open>An integer with a trailing space, then a string\<close>

lemma start_int_then_string:
  "ParseText_start input_int_then_string ParseContext_zero (tokenizer_at 0 1) =
     frame_with ParseContext_zero (tokenizer_at 0 1) [] (Token Token_Var None 0 5 0)"
  by code_simp

lemma body_int_then_string:
  "ParseText_body input_int_then_string
     (frame_with ParseContext_zero (tokenizer_at 0 1) [] (Token Token_Var None 0 5 0)) =
   frame_with
     (context_with 957 [error_at 1 ''Expected Int value but had incorrect char  .''])
     (tokenizer_at 8 1)
     [Var_node (Token Token_Var None 0 5 0) (Token Token_Symbol None 5 1 0)
        (Token Token_StringConstant None 8 3 0)]
     (Token Token_StringConstant None 8 3 0)"
  by code_simp

lemma GetValue_int_then_string:
  "GetValue input_int_then_string (context_with 96 []) (tokenizer_at 6 1) 6 Token_zero =
     (2, context_with 909 [error_at 1 ''Expected Int value but had incorrect char  .''],
      tokenizer_at 11 1, Token Token_StringConstant None 8 3 0)"
  by code_simp

text \<open>
  C6 (the claim: once the collector is non-empty no node is appended; every node of the
  result was appended while the error count was zero).  The code does otherwise on
  \<^verbatim>\<open>var x=1 "s";\<close>: \<^verbatim>\<open>GetValue\<close> pushes the diagnostic for the Int span \<^verbatim>\<open>1 \<close> (its
  last character is a space) and, unlike the branch for a missing string, goes on scanning;
  it then takes the string constant, sets \<^verbatim>\<open>isSet\<close> and returns a non-zero length with one
  error in the collector.  \<^verbatim>\<open>ParseText\<close> appends the Var node after that call, and returns
  one node together with one diagnostic.
\<close>

theorem C6_node_appended_after_error:
  "GetValue input_int_then_string (context_with 96 []) (tokenizer_at 6 1) 6 Token_zero =
     (2, context_with 909 [error_at 1 ''Expected Int value but had incorrect char  .''],
      tokenizer_at 11 1, Token Token_StringConstant None 8 3 0)
   \<and> ParseText input_int_then_string ParseContext_zero (Tokenizer_start ''main.or'') =
       Some ([Var_node (Token Token_Var None 0 5 0) (Token Token_Symbol None 5 1 0)
                (Token Token_StringConstant None 8 3 0)],
             context_with 957 [error_at 1 ''Expected Int value but had incorrect char  .''],
             tokenizer_at 8 1)"
proof -
  let ?s0 = "frame_with ParseContext_zero (tokenizer_at 0 1) [] (Token Token_Var None 0 5 0)"
  have "ParseText_loop input_int_then_string ?s0 =
      Some (frame_with
        (context_with 957 [error_at 1 ''Expected Int value but had incorrect char  .''])
        (tokenizer_at 8 1)
        [Var_node (Token Token_Var None 0 5 0) (Token Token_Symbol None 5 1 0)
           (Token Token_StringConstant None 8 3 0)]
        (Token Token_StringConstant None 8 3 0))"
    by (rule ParseText_loop_break [OF _ body_int_then_string]) (simp_all add: frame_simps)
  then have "ParseText input_int_then_string ParseContext_zero (Tokenizer_start ''main.or'') =
       Some ([Var_node (Token Token_Var None 0 5 0) (Token Token_Symbol None 5 1 0)
                (Token Token_StringConstant None 8 3 0)],
             context_with 957 [error_at 1 ''Expected Int value but had incorrect char  .''],
             tokenizer_at 8 1)"
    by (simp add: ParseText_def Tokenizer_start_main start_int_then_string frame_with_def)
  then show ?thesis
    using GetValue_int_then_string by simp
qed

section \<open>The error collector\<close>

lemma alloc_fields [simp]:
  "error_stack (ParseContextAllocateMemory c n) = error_stack c"
  "error_stack_size (ParseContextAllocateMemory c n) = error_stack_size c"
  "error_stack_size_max (ParseContextAllocateMemory c n) = error_stack_size_max c"
  by (simp_all add: ParseContextAllocateMemory_def Let_def)

lemma push_full:
  assumes "collector_ok ctx" "error_stack_size ctx = 32"
  shows "PushParseError ctx tk msg = ctx"
  using assms by (auto simp: PushParseError_def collector_ok_def split: option.splits)

lemma push_room:
  assumes "collector_ok ctx" "error_stack_size ctx < 32"
  shows "collector_ok (PushParseError ctx tk msg)"
    and "error_stack_size (PushParseError ctx tk msg) = error_stack_size ctx + 1"
    and "retained_errors (PushParseError ctx tk msg) = retained_errors ctx @ [Some (error_of (tk, msg))]"
  using assms
  by (auto simp: PushParseError_def collector_ok_def retained_errors_def Let_def error_of_def
      nat_add_distrib take_Suc_conv_app_nth split: option.splits)

lemma push_first:
  assumes "error_stack ctx = None"
  shows "collector_ok (PushParseError ctx tk msg)"
    and "error_stack_size (PushParseError ctx tk msg) = 1"
    and "retained_errors (PushParseError ctx tk msg) = [Some (error_of (tk, msg))]"
  using assms
  by (auto simp: PushParseError_def collector_ok_def retained_errors_def Let_def error_of_def
      take_Suc_conv_app_nth split: option.splits)


lemma retained_length: "collector_ok ctx \<Longrightarrow> length (retained_errors ctx) = nat (error_stack_size ctx)"
  by (auto simp: collector_ok_def retained_errors_def split: option.splits)

lemma pushes_ok:
  "collector_ok ctx \<Longrightarrow>
     collector_ok (PushParseErrors ctx ds)
     \<and> retained_errors (PushParseErrors ctx ds) =
         retained_errors ctx @ map (\<lambda>d. Some (error_of d)) (take (32 - nat (error_stack_size ctx)) ds)"
proof (induction ds arbitrary: ctx)
  case Nil
  then show ?case by simp
next
  case (Cons d ds)
  show ?case
  proof (cases "error_stack_size ctx < 32")
    case True
    have ok: "collector_ok (PushParseError ctx (fst d) (snd d))"
      by (rule push_room(1) [OF Cons.prems True])
    have sz: "error_stack_size (PushParseError ctx (fst d) (snd d)) = error_stack_size ctx + 1"
      by (rule push_room(2) [OF Cons.prems True])
    have re: "retained_errors (PushParseError ctx (fst d) (snd d)) = retained_errors ctx @ [Some (error_of d)]"
      using push_room(3) [OF Cons.prems True, of "fst d" "snd d"] by simp
    have nonneg: "0 \<le> error_stack_size ctx"
      using Cons.prems by (auto simp: collector_ok_def split: option.splits)
    have tk: "take (32 - nat (error_stack_size ctx)) (d # ds) = d # take (32 - nat (error_stack_size ctx + 1)) ds"
    proof -
      obtain m where m: "32 - nat (error_stack_size ctx) = Suc m"
        using True nonneg by (cases "32 - nat (error_stack_size ctx)") auto
      then have "32 - nat (error_stack_size ctx + 1) = m"
        using nonneg by (simp add: nat_add_distrib)
      with m show ?thesis by simp
    qed
    show ?thesis
      using Cons.IH [OF ok] by (simp add: sz re tk)
  next
    case False
    then have full: "error_stack_size ctx = 32"
      using Cons.prems by (auto simp: collector_ok_def split: option.splits)
    have same: "PushParseError ctx (fst d) (snd d) = ctx"
      by (rule push_full [OF Cons.prems full])
    show ?thesis
      using Cons.IH [OF Cons.prems] by (simp add: same full)
  qed
qed

text \<open>
  C7: starting from a context whose log does not exist yet, pushing any list of diagnostics
  retains the first 32 of them in the order of the pushes, so \<open>min N 32\<close> of \<open>N\<close>; once 32
  or more have been pushed, a further push returns the context as it is (nothing is stored,
  nothing is allocated, no field changes); and the log has 32 slots after any push.
\<close>

theorem C7_error_collector_capacity:
  assumes "error_stack ctx = None"
  shows "retained_errors (PushParseErrors ctx ds) = map (\<lambda>d. Some (error_of d)) (take 32 ds)
       \<and> length (retained_errors (PushParseErrors ctx ds)) = min (length ds) 32
       \<and> (32 \<le> length ds \<longrightarrow>
            PushParseError (PushParseErrors ctx ds) tk msg = PushParseErrors ctx ds)
       \<and> (ds \<noteq> [] \<longrightarrow> map_option length (error_stack (PushParseErrors ctx ds)) = Some 32)"
proof (cases ds)
  case Nil
  then show ?thesis using assms by (simp add: retained_errors_def)
next
  case (Cons d rest)
  let ?c1 = "PushParseError ctx (fst d) (snd d)"
  have ok1: "collector_ok ?c1" by (rule push_first(1) [OF assms])
  have sz1: "error_stack_size ?c1 = 1" by (rule push_first(2) [OF assms])
  have re1: "retained_errors ?c1 = [Some (error_of d)]"
    using push_first(3) [OF assms, of "fst d" "snd d"] by simp
  from pushes_ok [OF ok1, of rest]
  have ok: "collector_ok (PushParseErrors ctx ds)"
    and re: "retained_errors (PushParseErrors ctx ds) = map (\<lambda>d. Some (error_of d)) (take 32 ds)"
    by (simp_all add: Cons sz1 re1)
  have len: "length (retained_errors (PushParseErrors ctx ds)) = min (length ds) 32"
    by (simp add: re)
  have drop: "PushParseError (PushParseErrors ctx ds) tk msg = PushParseErrors ctx ds" if "32 \<le> length ds"
  proof -
    have "nat (error_stack_size (PushParseErrors ctx ds)) = 32"
      using retained_length [OF ok] len that by simp
    then have "error_stack_size (PushParseErrors ctx ds) = 32" by simp
    then show ?thesis by (rule push_full [OF ok])
  qed
  have arr: "map_option length (error_stack (PushParseErrors ctx ds)) = Some 32"
    using ok by (auto simp: collector_ok_def split: option.splits)
  show ?thesis using re len drop arr by simp
qed


theorem C7_forty_errors_witness:
  "error_stack ParseContext_zero = None
   \<and> 32 \<le> length forty_errors
   \<and> forty_errors \<noteq> []
   \<and> retained_errors (PushParseErrors ParseContext_zero forty_errors) =
       map (\<lambda>d. Some (error_of d)) (take 32 forty_errors)
   \<and> length (retained_errors (PushParseErrors ParseContext_zero forty_errors)) = 32
   \<and> PushParseError (PushParseErrors ParseContext_zero forty_errors) (tokenizer_at 0 41) ''error'' =
       PushParseErrors ParseContext_zero forty_errors
   \<and> map_option length (error_stack (PushParseErrors ParseContext_zero forty_errors)) = Some 32"
proof -
  have a: "error_stack ParseContext_zero = None"
    by (simp add: ParseContext_zero_def)
  have b: "length forty_errors = 40"
    by (simp add: forty_errors_def)
  then have c: "forty_errors \<noteq> []" by auto
  show ?thesis
    using C7_error_collector_capacity [OF a, of forty_errors "tokenizer_at 0 41" "''error''"] a b c
    by simp
qed

subsection \<open>The diagnostic for an Int value\<close>

lemma digit_not_bracket:
  "CharIsDigit (char_int c) \<Longrightarrow> c \<noteq> CHR ''['' \<and> c \<noteq> CHR '']''"
  by (auto simp: CharIsDigit_def char_int_def)

lemma GetValue_other_int:
  assumes "CharIsDigit (char_int (buf_at buf (link + gv_i f)))"
    and "RequireTokenType buf (gv_tokenizer f) Token_Int (gv_value f) = (True, v, tk)"
  shows "GetValue_other buf link f = GetValue_int buf f v tk"
  using assms digit_not_bracket [OF assms(1)] by (simp add: GetValue_other_def)

lemma first_digit_name_12_space:
  "CharIsDigit (char_int (buf_at input_name_12_space (10 + gv_i frame_at_first_digit)))
   \<and> RequireTokenType input_name_12_space (gv_tokenizer frame_at_first_digit) Token_Int
         (gv_value frame_at_first_digit) =
       (True, Token Token_Int None 11 3 0, tokenizer_at 14 1)
   \<and> Int_last_char input_name_12_space (Token Token_Int None 11 3 0) = CHR '' ''
   \<and> \<not> CharIsDigit (char_int (CHR '' ''))
   \<and> error_stack (gv_context frame_at_first_digit) = None
   \<and> \<not> gv_isSet frame_at_first_digit
   \<and> error_of (tokenizer_at 14 1, msg_invalid_int (CHR '' '')) =
       error_at 1 ''Expected Int value but had incorrect char  .''"
  by code_simp

lemma first_digit_name_12_3:
  "CharIsDigit (char_int (buf_at input_name_12_3 (10 + gv_i frame_at_first_digit)))
   \<and> RequireTokenType input_name_12_3 (gv_tokenizer frame_at_first_digit) Token_Int
         (gv_value frame_at_first_digit) =
       (True, Token Token_Int None 11 4 0, tokenizer_at 15 1)
   \<and> Int_last_char input_name_12_3 (Token Token_Int None 11 4 0) = CHR ''3''
   \<and> CharIsDigit (char_int (CHR ''3''))
   \<and> gv_context frame_at_first_digit = context_with 96 []"
  by code_simp

text \<open>
  C4 as amended.  In a pass of the loop of \<^verbatim>\<open>GetValue\<close> at a digit whose Int token is taken,
  the diagnostic \<^verbatim>\<open>Expected Int value but had incorrect char %c.\<close> is raised exactly when the
  last character of the Int token is not a digit, whatever that character is: then the
  diagnostic is pushed with that character for the tokenizer behind the token, \<^verbatim>\<open>isSet\<close> keeps
  its value, and a collector that held nothing holds that one diagnostic; when the last
  character is a digit, nothing is pushed and \<^verbatim>\<open>isSet\<close> is set.  In both cases the token
  becomes the value and \<open>i\<close> advances by its length.  So parsing \<^verbatim>\<open>var NAME = 12 ;\<close>
  (whitespace between the digits and the terminator) returns no node and the collector holds
  that diagnostic for the space, followed by \<^verbatim>\<open>Expected value before endline\<close>.  For
  \<^verbatim>\<open>var NAME = 12 3;\<close> the value extraction, called as \<^verbatim>\<open>ParseText\<close> calls it, raises no
  diagnostic: the Int token is the span \<^verbatim>\<open>12 3\<close>, it ends in a digit and is returned as the
  value with a non-zero result.
\<close>

theorem C4_trailing_space_rejected:
  "(CharIsDigit (char_int (buf_at buf (link + gv_i f)))
      \<and> RequireTokenType buf (gv_tokenizer f) Token_Int (gv_value f) = (True, v, tk) \<longrightarrow>
      gv_value (GetValue_other buf link f) = v
      \<and> gv_tokenizer (GetValue_other buf link f) = tk
      \<and> gv_i (GetValue_other buf link f) = gv_i f + string_length v
      \<and> (CharIsDigit (char_int (Int_last_char buf v)) \<longrightarrow>
           gv_isSet (GetValue_other buf link f)
           \<and> gv_context (GetValue_other buf link f) = gv_context f)
      \<and> (\<not> CharIsDigit (char_int (Int_last_char buf v)) \<longrightarrow>
           gv_isSet (GetValue_other buf link f) = gv_isSet f
           \<and> gv_context (GetValue_other buf link f) =
               PushParseError (gv_context f) tk (msg_invalid_int (Int_last_char buf v))
           \<and> (error_stack (gv_context f) = None \<longrightarrow>
                 retained_errors (gv_context (GetValue_other buf link f)) =
                   [Some (error_of (tk, msg_invalid_int (Int_last_char buf v)))])))
   \<and> ParseText input_name_12_space ParseContext_zero (Tokenizer_start ''main.or'') =
       Some ([],
             context_with 939
               [error_at 1 ''Expected Int value but had incorrect char  .'',
                error_at 1 ''Expected value before endline''],
             tokenizer_at 14 1)
   \<and> GetValue input_name_12_3 (context_with 96 []) (tokenizer_at 10 1) 10 Token_zero =
       (2, context_with 96 [], tokenizer_at 15 1, Token Token_Int None 11 4 0)
   \<and> Token_text input_name_12_3 (Token Token_Int None 11 4 0) = ''12 3''"
proof -
  have rule: "CharIsDigit (char_int (buf_at buf (link + gv_i f)))
      \<and> RequireTokenType buf (gv_tokenizer f) Token_Int (gv_value f) = (True, v, tk) \<longrightarrow>
      gv_value (GetValue_other buf link f) = v
      \<and> gv_tokenizer (GetValue_other buf link f) = tk
      \<and> gv_i (GetValue_other buf link f) = gv_i f + string_length v
      \<and> (CharIsDigit (char_int (Int_last_char buf v)) \<longrightarrow>
           gv_isSet (GetValue_other buf link f)
           \<and> gv_context (GetValue_other buf link f) = gv_context f)
      \<and> (\<not> CharIsDigit (char_int (Int_last_char buf v)) \<longrightarrow>
           gv_isSet (GetValue_other buf link f) = gv_isSet f
           \<and> gv_context (GetValue_other buf link f) =
               PushParseError (gv_context f) tk (msg_invalid_int (Int_last_char buf v))
           \<and> (error_stack (gv_context f) = None \<longrightarrow>
                 retained_errors (gv_context (GetValue_other buf link f)) =
                   [Some (error_of (tk, msg_invalid_int (Int_last_char buf v)))]))"
    by (auto simp: GetValue_other_int GetValue_int_def Int_last_char_def push_first(3))
  let ?s0 = "frame_with ParseContext_zero (tokenizer_at 0 1) [] (Token Token_Var None 0 9 0)"
  have "ParseText_loop input_name_12_space ?s0 =
      Some (frame_with
              (context_with 939
                 [error_at 1 ''Expected Int value but had incorrect char  .'',
                  error_at 1 ''Expected value before endline''])
              (tokenizer_at 14 1) [] Token_zero)"
    by (rule ParseText_loop_break [OF _ body_name_12_space]) (simp_all add: frame_simps)
  then have run: "ParseText input_name_12_space ParseContext_zero (Tokenizer_start ''main.or'') =
     Some ([],
           context_with 939
             [error_at 1 ''Expected Int value but had incorrect char  .'',
              error_at 1 ''Expected value before endline''],
           tokenizer_at 14 1)"
    by (simp add: ParseText_def Tokenizer_start_main start_name_12_space frame_with_def)
  show ?thesis
    by (rule conjI [OF rule conjI [OF run conjI [OF GetValue_name_12_3 text_name_12_3]]])
qed

text \<open>
  The rule at the first digit of \<^verbatim>\<open>var NAME = 12 ;\<close>, where the Int token \<^verbatim>\<open>12 \<close> ends in a
  space and the diagnostic is raised, and at the first digit of \<^verbatim>\<open>var NAME = 12 3;\<close>, where the
  Int token \<^verbatim>\<open>12 3\<close> ends in a digit and nothing is raised.
\<close>

theorem C4_trailing_space_witness:
  "CharIsDigit (char_int (buf_at input_name_12_space (10 + gv_i frame_at_first_digit)))
   \<and> RequireTokenType input_name_12_space (gv_tokenizer frame_at_first_digit) Token_Int
         (gv_value frame_at_first_digit) =
       (True, Token Token_Int None 11 3 0, tokenizer_at 14 1)
   \<and> \<not> CharIsDigit (char_int (Int_last_char input_name_12_space (Token Token_Int None 11 3 0)))
   \<and> error_stack (gv_context frame_at_first_digit) = None
   \<and> gv_value (GetValue_other input_name_12_space 10 frame_at_first_digit) =
       Token Token_Int None 11 3 0
   \<and> \<not> gv_isSet (GetValue_other input_name_12_space 10 frame_at_first_digit)
   \<and> retained_errors (gv_context (GetValue_other input_name_12_space 10 frame_at_first_digit)) =
       [Some (error_at 1 ''Expected Int value but had incorrect char  .'')]
   \<and> CharIsDigit (char_int (buf_at input_name_12_3 (10 + gv_i frame_at_first_digit)))
   \<and> RequireTokenType input_name_12_3 (gv_tokenizer frame_at_first_digit) Token_Int
         (gv_value frame_at_first_digit) =
       (True, Token Token_Int None 11 4 0, tokenizer_at 15 1)
   \<and> CharIsDigit (char_int (Int_last_char input_name_12_3 (Token Token_Int None 11 4 0)))
   \<and> gv_value (GetValue_other input_name_12_3 10 frame_at_first_digit) =
       Token Token_Int None 11 4 0
   \<and> gv_isSet (GetValue_other input_name_12_3 10 frame_at_first_digit)
   \<and> gv_context (GetValue_other input_name_12_3 10 frame_at_first_digit) = context_with 96 []"
proof -
  note a = first_digit_name_12_space
  note b = first_digit_name_12_3
  have a1: "CharIsDigit (char_int (buf_at input_name_12_space (10 + gv_i frame_at_first_digit)))
     \<and> RequireTokenType input_name_12_space (gv_tokenizer frame_at_first_digit) Token_Int
           (gv_value frame_at_first_digit) =
         (True, Token Token_Int None 11 3 0, tokenizer_at 14 1)"
    using a by simp
  have a2: "\<not> CharIsDigit
              (char_int (Int_last_char input_name_12_space (Token Token_Int None 11 3 0)))"
    using a by simp
  have a3: "error_stack (gv_context frame_at_first_digit) = None"
    using a by simp
  have a4: "\<not> gv_isSet frame_at_first_digit"
    using a by simp
  have a5: "error_of (tokenizer_at 14 1,
              msg_invalid_int (Int_last_char input_name_12_space (Token Token_Int None 11 3 0))) =
            error_at 1 ''Expected Int value but had incorrect char  .''"
    using a by simp
  have b1: "CharIsDigit (char_int (buf_at input_name_12_3 (10 + gv_i frame_at_first_digit)))
     \<and> RequireTokenType input_name_12_3 (gv_tokenizer frame_at_first_digit) Token_Int
           (gv_value frame_at_first_digit) =
         (True, Token Token_Int None 11 4 0, tokenizer_at 15 1)"
    using b by simp
  have b2: "CharIsDigit (char_int (Int_last_char input_name_12_3 (Token Token_Int None 11 4 0)))"
    using b by simp
  have b3: "gv_context frame_at_first_digit = context_with 96 []"
    using b by simp
  have space: "gv_value (GetValue_other input_name_12_space 10 frame_at_first_digit) =
         Token Token_Int None 11 3 0
     \<and> \<not> gv_isSet (GetValue_other input_name_12_space 10 frame_at_first_digit)
     \<and> retained_errors
          (gv_context (GetValue_other input_name_12_space 10 frame_at_first_digit)) =
         [Some (error_at 1 ''Expected Int value but had incorrect char  .'')]"
    using
      mp [OF C4_trailing_space_rejected [where buf = input_name_12_space and link = 10
          and f = frame_at_first_digit and v = "Token Token_Int None 11 3 0"
          and tk = "tokenizer_at 14 1", THEN conjunct1] a1]
      a2 a3 a4 a5
    by auto
  have digit: "gv_value (GetValue_other input_name_12_3 10 frame_at_first_digit) =
         Token Token_Int None 11 4 0
     \<and> gv_isSet (GetValue_other input_name_12_3 10 frame_at_first_digit)
     \<and> gv_context (GetValue_other input_name_12_3 10 frame_at_first_digit) = context_with 96 []"
    using
      mp [OF C4_trailing_space_rejected [where buf = input_name_12_3 and link = 10
          and f = frame_at_first_digit and v = "Token Token_Int None 11 4 0"
          and tk = "tokenizer_at 15 1", THEN conjunct1] b1]
      b2 b3
    by auto
  show ?thesis
    using a1 a2 a3 space b1 b2 digit by blast
qed

section \<open>The keywords of the lexer\<close>

lemma scan_skipped:
  "skipped buf (buffer + i) \<Longrightarrow>
     GetNextToken_scan buf buffer i token = GetNextToken_scan buf buffer (i + 1) token"
  by (subst GetNextToken_scan.simps)
     (auto simp: skipped_def rule_at_def var_at_def const_at_def add.assoc)

lemma scan_skip_run:
  "\<forall>k. i \<le> k \<and> k < n \<longrightarrow> skipped buf (buffer + k) \<Longrightarrow> i \<le> n \<Longrightarrow>
     GetNextToken_scan buf buffer i token = GetNextToken_scan buf buffer n token"
proof (induction "nat (n - i)" arbitrary: i)
  case 0
  then show ?case by simp
next
  case (Suc m)
  then have "i < n" by linarith
  with Suc.prems have "skipped buf (buffer + i)" by simp
  then have "GetNextToken_scan buf buffer i token = GetNextToken_scan buf buffer (i + 1) token"
    by (rule scan_skipped)
  also have "\<dots> = GetNextToken_scan buf buffer n token"
    using Suc.hyps(2) Suc.prems \<open>i < n\<close> by (intro Suc.hyps(1)) auto
  finally show ?case .
qed

lemma scan_var:
  "var_at buf (buffer + i) \<Longrightarrow>
     GetNextToken_scan buf buffer i token =
       Token Token_Var (tokens token) (buffer + i)
         (escaped_scan var_delim buf (buffer + i) 0 True) (lines_traversed token)"
  by (subst GetNextToken_scan.simps) (auto simp: var_at_def add.assoc)

lemma scan_const:
  "const_at buf (buffer + i) \<Longrightarrow>
     GetNextToken_scan buf buffer i token =
       Token Token_Const (tokens token) (buffer + i)
         (escaped_scan const_delim buf (buffer + i) 0 True) (lines_traversed token)"
  by (subst GetNextToken_scan.simps) (auto simp: const_at_def add.assoc)

text \<open>
  C9: the lexer finds the var keyword by comparing three characters and nothing else.  If
  the loop moves on from every offset before \<open>n\<close> (no rule matches there) and the
  characters \<open>v\<close>, \<open>a\<close>, \<open>r\<close> stand at offset \<open>n\<close>, then the token is a VarTag token that
  starts at \<open>n\<close>, whatever stands before or behind the three characters; likewise a
  ConstTag token for the five characters \<open>c\<close>, \<open>o\<close>, \<open>n\<close>, \<open>s\<close>, \<open>t\<close>.
\<close>

theorem C9_keyword_substring_match:
  assumes "0 \<le> n" and "\<forall>k. 0 \<le> k \<and> k < n \<longrightarrow> skipped buf (at tk + k)"
  shows "(var_at buf (at tk + n) \<longrightarrow>
            type (GetNextTokenFromBuffer buf tk) = Token_Var
            \<and> string (GetNextTokenFromBuffer buf tk) = at tk + n)
       \<and> (const_at buf (at tk + n) \<longrightarrow>
            type (GetNextTokenFromBuffer buf tk) = Token_Const
            \<and> string (GetNextTokenFromBuffer buf tk) = at tk + n)"
proof -
  have run: "GetNextToken_scan buf (at tk) 0 Token_zero = GetNextToken_scan buf (at tk) n Token_zero"
    using assms by (intro scan_skip_run) auto
  show ?thesis
    by (auto simp: GetNextTokenFromBuffer_def with_lines_def run scan_var scan_const)
qed

lemmas rule_defs = skipped_def rule_at_def var_at_def const_at_def buf_at_def tokenizer_at_def
  CharIsDigit_def CharIsSymbol_def CharIsSpace_def char_int_def symbols_def

lemma skipped_covariant:
  "\<forall>k. 0 \<le> k \<and> k < 2 \<longrightarrow> skipped ''covariant'' (at (tokenizer_at 0 1) + k)"
proof (intro allI impI)
  fix k :: int
  assume "0 \<le> k \<and> k < 2"
  then have "k = 0 \<or> k = 1" by arith
  then show "skipped ''covariant'' (at (tokenizer_at 0 1) + k)"
    by (auto simp: rule_defs)
qed

lemma skipped_unconst:
  "\<forall>k. 0 \<le> k \<and> k < 2 \<longrightarrow> skipped ''unconst'' (at (tokenizer_at 0 1) + k)"
proof (intro allI impI)
  fix k :: int
  assume "0 \<le> k \<and> k < 2"
  then have "k = 0 \<or> k = 1" by arith
  then show "skipped ''unconst'' (at (tokenizer_at 0 1) + k)"
    by (auto simp: rule_defs)
qed

theorem C9_covariant_witness:
  "(0::int) \<le> 2
   \<and> var_at ''covariant'' (at (tokenizer_at 0 1) + 2)
   \<and> type (GetNextTokenFromBuffer ''covariant'' (tokenizer_at 0 1)) = Token_Var
   \<and> string (GetNextTokenFromBuffer ''covariant'' (tokenizer_at 0 1)) = 2
   \<and> const_at ''unconst'' (at (tokenizer_at 0 1) + 2)
   \<and> type (GetNextTokenFromBuffer ''unconst'' (tokenizer_at 0 1)) = Token_Const
   \<and> string (GetNextTokenFromBuffer ''unconst'' (tokenizer_at 0 1)) = 2"
proof -
  have v: "var_at ''covariant'' (at (tokenizer_at 0 1) + 2)"
    by (simp add: var_at_def buf_at_def tokenizer_at_def)
  have c: "const_at ''unconst'' (at (tokenizer_at 0 1) + 2)"
    by (simp add: const_at_def buf_at_def tokenizer_at_def)
  have s: "at (tokenizer_at 0 1) + 2 = 2"
    by (simp add: tokenizer_at_def)
  show ?thesis
    using C9_keyword_substring_match [of 2 "''covariant''" "tokenizer_at 0 1", OF _ skipped_covariant]
      C9_keyword_substring_match [of 2 "''unconst''" "tokenizer_at 0 1", OF _ skipped_unconst]
      v c s
    by simp
qed

section \<open>Symbols and the semicolon\<close>

lemma strlen_single: "l \<noteq> NUL \<Longrightarrow> CalculateCStringLength ([l], 0) = 1"
  unfolding CalculateCStringLength_def
  by (subst CalculateCStringLength_loop.simps, subst CalculateCStringLength_loop.simps)
     (simp add: cstr_at_def buf_at_def)

lemma match_single: "CStringMatchCaseSensitiveN ([l], 0) (buf, p) 1 = (l = buf_at buf p)"
  unfolding CStringMatchCaseSensitiveN_def
  by (subst CStringMatch_loop.simps, subst CStringMatch_loop.simps)
     (simp add: cstr_at_def buf_at_def)

lemma break_out_blocks:
  "break_out symbolic_blocks_to_break_out buf buffer i j =
     (if buf_at buf (buffer + i) \<in> set [CHR ''='', CHR ''*'', CHR ''_'', CHR 0x60, CHR ''{'', CHR ''}'', CHR ''|'', CHR '';'']
      then i + 1 else j)"
  by (simp add: symbolic_blocks_to_break_out_def strlen_single match_single)

lemma of_char_int_bounds: "0 \<le> (of_char x :: int) \<and> (of_char x :: int) < 256"
proof -
  have "0 \<le> (of_char x :: int) mod 256 \<and> (of_char x :: int) mod 256 < 256"
    by (intro conjI pos_mod_sign pos_mod_bound) simp_all
  then show ?thesis by (simp only: of_char_mod_256)
qed

lemma char_int_eq_iff: "char_int a = char_int b \<longleftrightarrow> a = b"
proof
  assume h: "char_int a = char_int b"
  have "(of_char a :: int) = of_char b"
    using h of_char_int_bounds [of a] of_char_int_bounds [of b]
    by (auto simp: char_int_def split: if_splits)
  then show "a = b" by simp
qed simp

lemma CharIsSymbol_iff: "CharIsSymbol (char_int c) = (c \<in> set symbols)"
  by (auto simp: CharIsSymbol_def list_ex_iff char_int_eq_iff)

lemma scan_nul:
  "buf_at buf (buffer + i) = NUL \<Longrightarrow> GetNextToken_scan buf buffer i token = token"
  by (subst GetNextToken_scan.simps) simp

lemma scan_newline:
  "buf_at buf (buffer + i) = CHR 0x0A \<Longrightarrow> buf_at buf (buffer + i + 1) = CHR 0x0A \<Longrightarrow>
     GetNextToken_scan buf buffer i token =
       Token Token_DoubleNewline (tokens token) (buffer + i) 2 (lines_traversed token)"
  by (subst GetNextToken_scan.simps) simp

lemma scan_string:
  "buf_at buf (buffer + i) = CHR 0x22 \<Longrightarrow>
     GetNextToken_scan buf buffer i token =
       Token Token_StringConstant (tokens token) (buffer + i)
         (escaped_scan string_delim buf (buffer + i) 0 True + 1) (lines_traversed token)"
  by (subst GetNextToken_scan.simps) simp

lemma digit_chars:
  assumes "CharIsDigit (char_int c)"
  shows "c \<noteq> NUL" "c \<noteq> CHR 0x0A" "c \<noteq> CHR ''v''" "c \<noteq> CHR ''c''" "c \<noteq> CHR 0x22"
  using assms by (auto simp: CharIsDigit_def char_int_def)

lemma scan_int:
  "CharIsDigit (char_int (buf_at buf (buffer + i))) \<Longrightarrow>
     GetNextToken_scan buf buffer i token =
       Token Token_Int (tokens token) (buffer + i) (int_scan buf (buffer + i) 0 0)
         (lines_traversed token)"
  using digit_chars [of "buf_at buf (buffer + i)"]
  by (subst GetNextToken_scan.simps) simp

lemma symbol_chars:
  assumes "c \<in> set symbols"
  shows "c \<noteq> NUL" "c \<noteq> CHR 0x0A" "c \<noteq> CHR ''v''" "c \<noteq> CHR ''c''" "c \<noteq> CHR 0x22"
    "\<not> CharIsDigit (char_int c)" "\<not> CharIsSpace (char_int c)" "c \<noteq> CHR '';''"
  using assms by (auto simp: symbols_def CharIsDigit_def CharIsSpace_def char_int_def)

lemma scan_symbol:
  assumes "buf_at buf (buffer + i) \<in> set symbols" and "0 \<le> i"
  shows "GetNextToken_scan buf buffer i token =
       Token Token_Symbol (tokens token) (buffer + i) 1 (lines_traversed token)"
proof -
  have b: "break_out symbolic_blocks_to_break_out buf buffer i (symbol_run buf buffer (i + 1)) = i + 1"
    using assms(1) by (auto simp: break_out_blocks symbols_def)
  show ?thesis
    using symbol_chars [OF assms(1)] assms
    by (subst GetNextToken_scan.simps) (simp add: b CharIsSymbol_iff)
qed

lemma rule_at_cases:
  assumes "rule_at buf p"
  obtains "buf_at buf p = CHR 0x0A" "buf_at buf (p + 1) = CHR 0x0A"
  | "var_at buf p" | "const_at buf p" | "buf_at buf p = CHR 0x22"
  | "CharIsDigit (char_int (buf_at buf p))" | "buf_at buf p \<in> set symbols"
  using assms by (auto simp: rule_at_def CharIsSymbol_iff)

lemma scan_rule_symbol:
  assumes "rule_at buf (buffer + i)" and "0 \<le> i"
    and "type (GetNextToken_scan buf buffer i token) = Token_Symbol"
  shows "GetNextToken_scan buf buffer i token =
       Token Token_Symbol (tokens token) (buffer + i) 1 (lines_traversed token)
     \<and> buf_at buf (buffer + i) \<in> set symbols"
  using assms(1)
proof (cases rule: rule_at_cases)
  case 1
  then show ?thesis using assms(3) by (simp add: scan_newline add.assoc)
next
  case 2
  then show ?thesis using assms(3) by (simp add: scan_var)
next
  case 3
  then show ?thesis using assms(3) by (simp add: scan_const)
next
  case 4
  then show ?thesis using assms(3) by (simp add: scan_string)
next
  case 5
  then show ?thesis using assms(3) by (simp add: scan_int)
next
  case 6
  then show ?thesis using assms(2) by (simp add: scan_symbol)
qed

lemma scan_symbol_shape:
  "0 \<le> i \<Longrightarrow> type token \<noteq> Token_Symbol \<Longrightarrow>
   type (GetNextToken_scan buf buffer i token) = Token_Symbol \<Longrightarrow>
     string_length (GetNextToken_scan buf buffer i token) = 1
     \<and> buf_at buf (string (GetNextToken_scan buf buffer i token)) \<in> set symbols"
proof (induction "nat (int (length buf) - (buffer + i))" arbitrary: i rule: less_induct)
  case less
  show ?case
  proof (cases "buf_at buf (buffer + i) = NUL")
    case True
    with less.prems show ?thesis by (simp add: scan_nul)
  next
    case nz: False
    then have lt: "buffer + i < int (length buf)"
      by (auto simp: buf_at_def split: if_splits)
    show ?thesis
    proof (cases "rule_at buf (buffer + i)")
      case True
      from scan_rule_symbol [OF True less.prems(1) less.prems(3)]
      show ?thesis by simp
    next
      case False
      with nz have "skipped buf (buffer + i)" by (simp add: skipped_def)
      then have eq: "GetNextToken_scan buf buffer i token = GetNextToken_scan buf buffer (i + 1) token"
        by (rule scan_skipped)
      have "string_length (GetNextToken_scan buf buffer (i + 1) token) = 1
         \<and> buf_at buf (string (GetNextToken_scan buf buffer (i + 1) token)) \<in> set symbols"
        using less.prems lt eq by (intro less.hyps) auto
      then show ?thesis by (simp add: eq)
    qed
  qed
qed


lemma retained_alloc [simp]:
  "retained_errors (ParseContextAllocateMemory c n) = retained_errors c"
  by (simp add: retained_errors_def split: option.splits)

lemma take_update_subset:
  "set (take (nat (k + 1)) (a[nat k := x])) \<subseteq> set (take (nat k) a) \<union> {x}"
proof (cases "0 \<le> k")
  case True
  then have n: "nat (k + 1) = Suc (nat k)" by simp
  show ?thesis
  proof (cases "nat k < length a")
    case True
    then show ?thesis by (simp add: n take_Suc_conv_app_nth)
  next
    case False
    then show ?thesis by (auto simp: n list_update_beyond)
  qed
next
  case False
  then show ?thesis by simp
qed

lemma push_retained_subset:
  "set (retained_errors (PushParseError ctx tk msg)) \<subseteq>
     set (retained_errors ctx)
     \<union> {Some \<lparr>error_file = source_file tk, error_line = line tk, message = msg\<rparr>}"
proof (cases "error_stack ctx")
  case None
  then show ?thesis
    by (auto simp: PushParseError_def retained_errors_def Let_def take_Suc_conv_app_nth)
next
  case (Some a)
  then show ?thesis
    using take_update_subset [of "error_stack_size ctx" a]
    by (auto simp: PushParseError_def retained_errors_def Let_def)
qed

lemma push_clean:
  assumes "\<not> holds_message ctx d" and "msg \<noteq> d"
  shows "\<not> holds_message (PushParseError ctx tk msg) d"
  using assms push_retained_subset [of ctx tk msg]
  by (fastforce simp: holds_message_def list_ex_iff split: option.splits)

lemma alloc_clean [simp]:
  "holds_message (ParseContextAllocateMemory ctx n) d = holds_message ctx d"
  by (simp add: holds_message_def)

lemma other_messages:
  "msg_expected_quote \<noteq> semicolon_diagnostic"
  "msg_invalid_int c \<noteq> semicolon_diagnostic"
  "msg_expected_value \<noteq> semicolon_diagnostic"
  "msg_malformed_tag \<noteq> semicolon_diagnostic"
  by (simp_all add: msg_expected_quote_def msg_invalid_int_def msg_expected_value_def
      msg_malformed_tag_def semicolon_diagnostic_def)

lemma symbol_message:
  assumes "string_length symbol = 1" and "buf_at buf (string symbol) \<in> set symbols"
  shows "msg_unexpected_symbol buf symbol \<noteq> semicolon_diagnostic"
proof -
  have "format_precision_s buf (string symbol) (string_length symbol) = [buf_at buf (string symbol)]"
    using assms symbol_chars(1) [OF assms(2)]
    by (subst format_precision_s.simps, subst format_precision_s.simps) simp
  then show ?thesis
    using symbol_chars(8) [OF assms(2)]
    by (simp add: msg_unexpected_symbol_def semicolon_diagnostic_def)
qed

lemma token_symbol_shape:
  assumes "type (GetNextTokenFromBuffer buf tk) = Token_Symbol"
  shows "string_length (GetNextTokenFromBuffer buf tk) = 1
       \<and> buf_at buf (string (GetNextTokenFromBuffer buf tk)) \<in> set symbols"
  using assms scan_symbol_shape [of 0 Token_zero buf "at tk"]
  by (simp add: GetNextTokenFromBuffer_def with_lines_def Token_zero_def)

lemma GetValue_string_clean:
  "clean_context (gv_context f) \<Longrightarrow> clean_context (gv_context (GetValue_string buf f))"
  by (auto simp: GetValue_string_def RequireTokenType_def Let_def push_clean other_messages)

lemma GetValue_other_clean:
  "clean_context (gv_context f) \<Longrightarrow> clean_context (gv_context (GetValue_other buf link f))"
  by (auto simp: GetValue_other_def GetValue_int_def RequireTokenType_def Let_def push_clean
      other_messages)

lemma GetValue_loop_clean:
  "clean_context (gv_context f) \<Longrightarrow> clean_context (gv_context (GetValue_loop buf link f))"
proof (induction buf link f rule: GetValue_loop.induct)
  case (1 buf link f)
  show ?case
    using "1.prems" "1.IH" GetValue_string_clean [of f buf] GetValue_other_clean [of f buf link]
    by (subst GetValue_loop.simps) auto
qed

lemma GetValue_clean:
  assumes "clean_context ctx" and "GetValue buf ctx tk link v = (n, ctx', tk', v')"
  shows "clean_context ctx'"
  using assms GetValue_loop_clean [of "\<lparr>gv_i = 0, gv_link_length = 0, gv_isSet = False, gv_bracket_stack = 0,
                  gv_context = ctx, gv_tokenizer = tk, gv_value = v\<rparr>" buf link]
  by (auto simp: GetValue_def Let_def push_clean other_messages split: if_splits)

lemma ParseText_assign_clean:
  "clean_context ctx \<Longrightarrow> clean_context (pt_context (ParseText_assign buf s ctx var isAssign tk))"
  by (auto simp: ParseText_assign_def Let_def split: prod.splits dest!: GetValue_clean [rotated])

lemma ParseText_var_clean:
  "clean_context (pt_context s) \<Longrightarrow> clean_context (pt_context (ParseText_var buf s isVar tk))"
  by (auto simp: ParseText_var_def Let_def ParseText_assign_clean push_clean other_messages
      split: prod.splits)

lemma ParseText_symbol_clean:
  assumes "clean_context (pt_context s)" and "string_length symbol = 1"
    and "buf_at buf (string symbol) \<in> set symbols"
  shows "clean_context (pt_context (ParseText_symbol buf s symbol tk))"
  using assms by (auto simp: ParseText_symbol_def push_clean symbol_message)

lemma ParseText_body_clean:
  assumes "clean_context (pt_context s)"
  shows "clean_context (pt_context (ParseText_body buf s))"
  using assms token_symbol_shape [of buf "pt_tokenizer s"]
  by (auto simp: ParseText_body_def Let_def RequireTokenType_def ParseText_var_clean
      ParseText_symbol_clean)

lemma ParseText_loop_clean:
  assumes "ParseText_loop buf s = Some r" and "clean_context (pt_context s)"
  shows "clean_context (pt_context r)"
proof -
  have "clean_context (pt_context s) \<longrightarrow> clean_context (pt_context r)"
  proof (rule ParseText_loop.raw_induct
      [where P = "\<lambda>b x y. clean_context (pt_context x) \<longrightarrow> clean_context (pt_context y)", OF _ assms(1)])
    fix loop :: "char list \<Rightarrow> ParseText_frame \<Rightarrow> ParseText_frame option" and b x y
    assume IH: "\<And>b x y. loop b x = Some y \<Longrightarrow> clean_context (pt_context x) \<longrightarrow> clean_context (pt_context y)"
      and step: "(if type (pt_token x) = Token_None then Some x
                  else if 0 < error_stack_size (pt_context (ParseText_body b x))
                       then Some (ParseText_body b x)
                       else loop b (ParseText_body b x)) = Some y"
    show "clean_context (pt_context x) \<longrightarrow> clean_context (pt_context y)"
      using step IH [of b "ParseText_body b x" y] ParseText_body_clean [of x b]
      by (auto split: if_splits)
  qed
  with assms(2) show ?thesis by simp
qed


lemma Token_text_single:
  "string_length token = 1 \<Longrightarrow> Token_text buf token = [buf_at buf (string token)]"
  by (simp add: Token_text_def)

lemma semicolon_skipped:
  "buf_at buf p = CHR '';'' \<Longrightarrow> skipped buf p"
  by (simp add: skipped_def rule_at_def var_at_def const_at_def CharIsDigit_def CharIsSymbol_def
      char_int_def symbols_def)

text \<open>
  C10: a Symbol token of the lexer is one character long and that character is one of the
  six of \<open>symbols\<close>, which do not contain \<^verbatim>\<open>;\<close>, so its text is never \<^verbatim>\<open>;\<close>; at a \<^verbatim>\<open>;\<close> the
  loop of the lexer moves on to the next offset without a token; and the parser pushes no
  diagnostic \<^verbatim>\<open>Unexpected symbol ';'\<close>: if the context holds none before a pass of the loop
  body it holds none after the pass, and so holds none when the parse returns.
\<close>

theorem C10_no_semicolon_symbol:
  "(type (GetNextTokenFromBuffer buf tk) = Token_Symbol \<longrightarrow>
      string_length (GetNextTokenFromBuffer buf tk) = 1
      \<and> buf_at buf (string (GetNextTokenFromBuffer buf tk)) \<in> set symbols
      \<and> Token_text buf (GetNextTokenFromBuffer buf tk) \<noteq> '';'')
   \<and> CHR '';'' \<notin> set symbols
   \<and> (buf_at buf (buffer + i) = CHR '';'' \<longrightarrow>
        GetNextToken_scan buf buffer i token = GetNextToken_scan buf buffer (i + 1) token)
   \<and> (\<not> holds_message (pt_context s) semicolon_diagnostic \<longrightarrow>
        \<not> holds_message (pt_context (ParseText_body buf s)) semicolon_diagnostic)
   \<and> (ParseText buf ctx tk = Some (nodes, ctx', tk') \<longrightarrow>
        \<not> holds_message ctx semicolon_diagnostic \<longrightarrow>
        \<not> holds_message ctx' semicolon_diagnostic)"
proof -
  have a: "string_length (GetNextTokenFromBuffer buf tk) = 1
      \<and> buf_at buf (string (GetNextTokenFromBuffer buf tk)) \<in> set symbols
      \<and> Token_text buf (GetNextTokenFromBuffer buf tk) \<noteq> '';''"
    if "type (GetNextTokenFromBuffer buf tk) = Token_Symbol"
    using token_symbol_shape [OF that]
      symbol_chars(8) [of "buf_at buf (string (GetNextTokenFromBuffer buf tk))"]
    by (simp add: Token_text_single)
  have b: "CHR '';'' \<notin> set symbols"
    by (simp add: symbols_def)
  have c: "GetNextToken_scan buf buffer i token = GetNextToken_scan buf buffer (i + 1) token"
    if "buf_at buf (buffer + i) = CHR '';''"
    by (rule scan_skipped [OF semicolon_skipped [OF that]])
  have d: "\<not> holds_message ctx' semicolon_diagnostic"
    if "ParseText buf ctx tk = Some (nodes, ctx', tk')" and "\<not> holds_message ctx semicolon_diagnostic"
  proof -
    from that(1) obtain r where r: "ParseText_loop buf (ParseText_start buf ctx tk) = Some r"
      and c: "ctx' = pt_context r"
      by (auto simp: ParseText_def)
    have "clean_context (pt_context (ParseText_start buf ctx tk))"
      using that(2) by (simp add: ParseText_start_def)
    from ParseText_loop_clean [OF r this] c show ?thesis by simp
  qed
  have e: "\<not> holds_message (pt_context (ParseText_body buf s)) semicolon_diagnostic"
    if "\<not> holds_message (pt_context s) semicolon_diagnostic"
    by (rule ParseText_body_clean [OF that])
  from a b c d e show ?thesis by blast
qed

lemma lex_semicolon_equals:
  "GetNextTokenFromBuffer '';='' (tokenizer_at 0 1) = Token Token_Symbol None 1 1 0"
  by code_simp

lemma parse_semicolon_equals:
  "ParseText '';='' ParseContext_zero (tokenizer_at 0 1) =
     Some ([], context_with 790 [error_at 1 (''Unexpected symbol '' @ [CHR 0x27] @ ''='' @ [CHR 0x27])],
           tokenizer_at 2 1)"
  by code_simp

theorem C10_semicolon_witness:
  "type (GetNextTokenFromBuffer '';='' (tokenizer_at 0 1)) = Token_Symbol
   \<and> Token_text '';='' (GetNextTokenFromBuffer '';='' (tokenizer_at 0 1)) = ''=''
   \<and> buf_at '';='' (0 + 0) = CHR '';''
   \<and> GetNextToken_scan '';='' 0 0 Token_zero = GetNextToken_scan '';='' 0 (0 + 1) Token_zero
   \<and> ParseText '';='' ParseContext_zero (tokenizer_at 0 1) =
       Some ([], context_with 790 [error_at 1 (''Unexpected symbol '' @ [CHR 0x27] @ ''='' @ [CHR 0x27])],
             tokenizer_at 2 1)
   \<and> \<not> holds_message ParseContext_zero semicolon_diagnostic
   \<and> \<not> holds_message
         (pt_context (ParseText_body '';='' (ParseText_start '';='' ParseContext_zero (tokenizer_at 0 1))))
         semicolon_diagnostic
   \<and> \<not> holds_message
         (context_with 790 [error_at 1 (''Unexpected symbol '' @ [CHR 0x27] @ ''='' @ [CHR 0x27])])
         semicolon_diagnostic"
proof -
  have t: "type (GetNextTokenFromBuffer '';='' (tokenizer_at 0 1)) = Token_Symbol"
    by (simp add: lex_semicolon_equals)
  have x: "Token_text '';='' (Token Token_Symbol None 1 1 0) = ''=''"
    by code_simp
  have s: "buf_at '';='' (0 + 0) = CHR '';''"
    by (simp add: buf_at_def)
  have z: "\<not> holds_message ParseContext_zero semicolon_diagnostic"
    by (simp add: holds_message_def retained_errors_def ParseContext_zero_def)
  show ?thesis
    using C10_no_semicolon_symbol [where buf = "'';=''" and tk = "tokenizer_at 0 1" and buffer = 0
        and i = 0 and token = Token_zero and ctx = ParseContext_zero and nodes = "[]"
        and ctx' = "context_with 790
                      [error_at 1 (''Unexpected symbol '' @ [CHR 0x27] @ ''='' @ [CHR 0x27])]"
        and tk' = "tokenizer_at 2 1"
        and s = "ParseText_start '';='' ParseContext_zero (tokenizer_at 0 1)"]
      t x s z parse_semicolon_equals
    by (simp add: lex_semicolon_equals ParseText_start_def)
qed

section \<open>Runs of the prefix tree\<close>

lemma insert_ab_abc:
  "InsertKeywords [(''ab'', ''1''), (''abc'', ''2'')] tree_empty = Some (Inr tree_ab_abc)"
  by code_simp

lemma lookup_ab_abc:
  "lookup_keyword tree_ab_abc ''ab'' = Some (Inr (0, Some None))"
  "lookup_keyword tree_ab_abc ''abc'' = Some (Inr (0, Some None))"
  by code_simp+

lemma insert_abc_ab:
  "InsertKeywords [(''abc'', ''1''), (''ab'', ''2'')] tree_empty = Some (Inr tree_abc_ab)"
  by code_simp

lemma lookup_abc_ab:
  "lookup_keyword tree_abc_ab ''ab'' = Some (Inr (0, Some None))"
  "lookup_keyword tree_abc_ab ''abc'' = Some (Inr (1, Some (Some (''1'', 0))))"
  by code_simp+

lemma insert_x_y:
  "InsertKeywords [(''x'', ''1''), (''y'', ''2'')] tree_empty = Some (Inl Invalid_write)"
  by code_simp

text \<open>
  C3 (the claim: after insertions with pairwise distinct keys, the lookup of each inserted
  key returns its value, also when one key is a strict prefix of another, in either order).
  The code does otherwise.  Inserting \<^verbatim>\<open>ab\<close> and then \<^verbatim>\<open>abc\<close> puts a split node with prefix
  length 2 and no value at the root, the old leaf below its \<open>have_child\<close> and the new leaf
  below its \<open>no_have_child\<close>; the lookup of \<^verbatim>\<open>ab\<close> stops at the split node and returns its
  null value with length 0, and the lookup of \<^verbatim>\<open>abc\<close> walks the \<open>have_child\<close> links and
  ends at a null pointer with length 0.  In the other order the lookup of \<^verbatim>\<open>ab\<close> returns
  length 0 in the same way.  Inserting \<^verbatim>\<open>x\<close> and then \<^verbatim>\<open>y\<close>, which share no character,
  writes the new leaf through the \<open>no_have_child\<close> field of a null pointer.
\<close>

theorem C3_prefix_keys_lookup_lost:
  "InsertKeywords [(''ab'', ''1''), (''abc'', ''2'')] tree_empty = Some (Inr tree_ab_abc)
   \<and> lookup_keyword tree_ab_abc ''ab'' = Some (Inr (0, Some None))
   \<and> lookup_keyword tree_ab_abc ''abc'' = Some (Inr (0, Some None))
   \<and> InsertKeywords [(''abc'', ''1''), (''ab'', ''2'')] tree_empty = Some (Inr tree_abc_ab)
   \<and> lookup_keyword tree_abc_ab ''ab'' = Some (Inr (0, Some None))
   \<and> lookup_keyword tree_abc_ab ''abc'' = Some (Inr (1, Some (Some (''1'', 0))))
   \<and> InsertKeywords [(''x'', ''1''), (''y'', ''2'')] tree_empty = Some (Inl Invalid_write)"
  using insert_ab_abc lookup_ab_abc insert_abc_ab lookup_abc_ab insert_x_y by simp

end
